theory Spec2Isabelle
  imports Complex_Main "HOL-Library.Word"
begin

section \<open>Peg-in funding and fee escalation of peerswap-web (cmd/psweb/ln/lnd.go, main.go)\<close>

text \<open>
  The Go code drives an LND node through gRPC. Every remote call is modelled as an
  exchange with a \<open>backend\<close>: a record of typed answer functions, each of which may look
  at the whole history of earlier exchanges (the \<open>trace\<close>), so that a backend may answer
  the same request differently at different times. The functions of the source are
  translated one by one; each takes the \<open>world\<close> (the trace and the package-level variable
  \<open>LndVerson\<close>) and returns its Go result together with the new world. Calls to
  \<open>log.Println\<close> and the closing of connections are left out: they influence neither the
  results nor the requests sent.
\<close>

subsection \<open>Basic types\<close>

type_synonym bytes = "8 word list"
type_synonym error = string

text \<open>
  A Go function returning \<open>(T, error)\<close> yields \<open>Ok v\<close> or \<open>Err e\<close>; a run-time panic
  (an index out of range) is not an error value and cannot be handled by the caller's
  \<open>if err != nil\<close>, so it is a third outcome that every caller passes on.
\<close>

datatype 'a result = Ok 'a | Err error | Panic

text \<open>\<open>internalLockId\<close> and \<open>myLockId\<close> (lnd.go, lines 41-54).\<close>

definition internalLockId :: bytes where
  "internalLockId =
     [0xed, 0xe1, 0x9a, 0x92, 0xed, 0x32, 0x1a, 0x47,
      0x05, 0xf8, 0xa1, 0xcc, 0xcc, 0x1d, 0x4f, 0x61,
      0x82, 0x54, 0x5d, 0x4b, 0xb4, 0xfa, 0xe0, 0x8b,
      0xd5, 0x93, 0x78, 0x31, 0xb7, 0xe3, 0x8f, 0x98]"

definition myLockId :: bytes where
  "myLockId =
     [0x00, 0xe1, 0x9a, 0x92, 0xed, 0x32, 0x1a, 0x47,
      0x05, 0xf8, 0xa1, 0xcc, 0xcc, 0x1d, 0x4f, 0x61,
      0x82, 0x54, 0x5d, 0x4b, 0xb4, 0xfa, 0xe0, 0x8b,
      0xd5, 0x93, 0x78, 0x31, 0xb7, 0xe3, 0x8f, 0x98]"

subsection \<open>The library functions the code calls on strings\<close>

text \<open>\<open>strings.Split(s, ":")\<close> for a one-character separator: never an empty list.\<close>

fun Split :: "char \<Rightarrow> string \<Rightarrow> string list" where
  "Split c [] = [[]]"
| "Split c (x # xs) =
     (if x = c then [] # Split c xs
      else (case Split c xs of [] \<Rightarrow> [[x]] | p # ps \<Rightarrow> (x # p) # ps))"

definition is_digit :: "char \<Rightarrow> bool" where
  "is_digit c = (c \<in> set ''0123456789'')"

definition digit_val :: "char \<Rightarrow> nat" where
  "digit_val c = of_char c - 48"

definition digits_val :: "string \<Rightarrow> nat" where
  "digits_val ds = foldl (\<lambda>n c. 10 * n + digit_val c) 0 ds"

definition syntax_error :: "string \<Rightarrow> string \<Rightarrow> error" where
  "syntax_error fn s = ''strconv.'' @ fn @ '': parsing '' @ s @ '': invalid syntax''"

definition range_error :: "string \<Rightarrow> string \<Rightarrow> error" where
  "range_error fn s = ''strconv.'' @ fn @ '': parsing '' @ s @ '': value out of range''"

text \<open>
  \<open>strconv.Atoi\<close>: an optional sign, then one or more decimal digits; the value must fit
  Go's 64-bit \<open>int\<close>.
\<close>

definition Atoi :: "string \<Rightarrow> error + int" where
  "Atoi s =
     (let neg = (case s of [] \<Rightarrow> False | c # _ \<Rightarrow> c = CHR ''-'');
          ds = (case s of [] \<Rightarrow> []
                | c # r \<Rightarrow> if c = CHR ''-'' \<or> c = CHR ''+'' then r else s)
      in if ds = [] \<or> \<not> list_all is_digit ds then Inl (syntax_error ''Atoi'' s)
         else let v = (if neg then - int (digits_val ds) else int (digits_val ds))
              in if v < - (2 ^ 63) \<or> 2 ^ 63 - 1 < v then Inl (range_error ''Atoi'' s)
                 else Inr v)"

text \<open>\<open>strconv.ParseUint(s, 10, 64)\<close>: decimal digits only, below \<open>2 ^ 64\<close>.\<close>

definition ParseUint :: "string \<Rightarrow> error + 64 word" where
  "ParseUint s =
     (if s = [] \<or> \<not> list_all is_digit s then Inl (syntax_error ''ParseUint'' s)
      else if 2 ^ 64 \<le> digits_val s then Inl (range_error ''ParseUint'' s)
      else Inr (of_nat (digits_val s)))"

subsection \<open>Messages of the RPC interface\<close>

text \<open>\<open>lnrpc.OutPoint\<close>; the request built by \<open>releaseOutputs\<close> leaves the bytes empty.\<close>

record OutPoint =
  TxidBytes :: bytes
  TxidStr :: string
  OutputIndex :: "32 word"

record Utxo =
  Address :: string
  AmountSat :: "64 word"
  Confirmations :: "64 word"
  Outpoint :: OutPoint

datatype ChangeAddressType = CHANGE_ADDRESS_TYPE_UNSPECIFIED | CHANGE_ADDRESS_TYPE_P2TR

text \<open>
  The two templates of \<open>walletrpc.FundPsbtRequest\<close>: \<open>Raw\<close> with inputs and an
  address-to-amount map, \<open>CoinSelect\<close> with a serialized PSBT and the index of the
  existing output that is to be treated as change.
\<close>

datatype Template =
    Raw "OutPoint list" "string \<rightharpoonup> 64 word"
  | CoinSelect bytes "32 word"

record FundPsbtRequest =
  Template :: Template
  SatPerVbyte :: "64 word"
  MinConfs :: "32 word"
  SpendUnconfirmed :: bool
  ChangeType :: ChangeAddressType

record OutputDetail =
  OutAddress :: string
  OutIndex :: "64 word"
  OutAmount :: "64 word"

record Transaction =
  TxHash :: string
  NumConfirmations :: "32 word"
  OutputDetails :: "OutputDetail list"
  PreviousOutpoints :: "string list"
  RawTxHex :: string

datatype request =
    Dial
  | ListUnspent "32 word"
  | GetTransactions
  | GetInfo
  | LeaseOutput bytes OutPoint "64 word"
  | ReleaseOutput bytes OutPoint
  | FundPsbt FundPsbtRequest
  | FinalizePsbt bytes
  | PublishTransaction bytes string
  | RemoveTransaction string
  | BumpFee OutPoint "64 word"

text \<open>An exchange: the request sent and the error the backend answered, if any.\<close>

datatype event = Call request "error option"

type_synonym trace = "event list"

record backend =
  dial :: "trace \<Rightarrow> error option"
  listUnspent :: "trace \<Rightarrow> 32 word \<Rightarrow> error + Utxo list"
  getTransactions :: "trace \<Rightarrow> error + Transaction list"
  getInfo :: "trace \<Rightarrow> error + string"
  leaseOutput :: "trace \<Rightarrow> bytes \<Rightarrow> OutPoint \<Rightarrow> 64 word \<Rightarrow> error option"
  releaseOutput :: "trace \<Rightarrow> bytes \<Rightarrow> OutPoint \<Rightarrow> error option"
  fundPsbtRpc :: "trace \<Rightarrow> FundPsbtRequest \<Rightarrow> error + bytes"
  finalizePsbt :: "trace \<Rightarrow> bytes \<Rightarrow> error + bytes"
  publishTransaction :: "trace \<Rightarrow> bytes \<Rightarrow> string \<Rightarrow> error option"
  removeTransaction :: "trace \<Rightarrow> string \<Rightarrow> error + string"
  bumpFee :: "trace \<Rightarrow> OutPoint \<Rightarrow> 64 word \<Rightarrow> error option"

text \<open>
  The mutable state the functions of lnd.go share: the exchanges so far, oldest first,
  and the cached version number \<open>LndVerson\<close> (a float64 in the source, a rational here).
\<close>

record world =
  trace :: trace
  LndVerson :: rat

definition errOf :: "error + 'a \<Rightarrow> error option" where
  "errOf r = (case r of Inl e \<Rightarrow> Some e | Inr _ \<Rightarrow> None)"

definition logCall :: "request \<Rightarrow> error option \<Rightarrow> world \<Rightarrow> world" where
  "logCall rq e w = w\<lparr>trace := trace w @ [Call rq e]\<rparr>"

subsection \<open>releaseOutputs (lnd.go, lines 330-355)\<close>

text \<open>
  The loop over \<open>*utxos\<close>. \<open>parts[1]\<close> panics when the string has no colon; a failing
  \<open>Atoi\<close> leaves the loop with \<open>break\<close>, after which the function returns \<open>nil\<close>; an error
  of the backend is returned at once. \<open>uint32(index)\<close> truncates.
\<close>

fun releaseOutputs :: "backend \<Rightarrow> string list \<Rightarrow> bytes \<Rightarrow> world \<Rightarrow> unit result \<times> world" where
  "releaseOutputs B [] lockId w = (Ok (), w)"
| "releaseOutputs B (i # utxos) lockId w =
     (let parts = Split CHR '':'' i in
      if length parts < 2 then (Panic, w)
      else (case Atoi (parts ! 1) of
          Inl err \<Rightarrow> (Ok (), w)
        | Inr index \<Rightarrow>
            (let op = \<lparr>TxidBytes = [], TxidStr = parts ! 0, OutputIndex = word_of_int index\<rparr>;
                 r = releaseOutput B (trace w) lockId op;
                 w' = logCall (ReleaseOutput lockId op) r w
             in case r of
                  Some err \<Rightarrow> (Err err, w')
                | None \<Rightarrow> releaseOutputs B utxos lockId w')))"

subsection \<open>The btcd library and the helpers of other packages\<close>

text \<open>Transactions of \<open>btcd/wire\<close>, with the fields the code sets or reads.\<close>

record WireOutPoint =
  Hash :: bytes
  Index :: "32 word"

record WireTxIn =
  PreviousOutPoint :: WireOutPoint

record WireTxOut =
  PkScript :: bytes
  Amount :: "64 word"

record MsgTx =
  Version :: "32 word"
  TxIn :: "WireTxIn list"
  TxOut :: "WireTxOut list"

datatype Packet = Packet MsgTx

datatype NetParams = TestNet3Params | MainNetParams

text \<open>
  Functions of imported packages that the code calls and that are not part of the
  sources under study are parameters of the model: number parsing, address decoding,
  PSBT packing and serialization, transaction deserialization and hashing, and the two
  helpers \<open>bitcoin.GetFeeFromPsbt\<close> and \<open>toSats\<close>. A float64 is idealised as a rational.
\<close>

record library =
  ParseFloat :: "string \<Rightarrow> error + rat"
  DecodeAddress :: "string \<Rightarrow> NetParams \<Rightarrow> error + bytes"
  PayToAddrScript :: "bytes \<Rightarrow> error + bytes"
  NewFromUnsignedTx :: "MsgTx \<Rightarrow> error + Packet"
  Serialize :: "Packet \<Rightarrow> bytes"
  Deserialize :: "bytes \<Rightarrow> error + MsgTx"
  TxHashString :: "MsgTx \<Rightarrow> string"
  GetFeeFromPsbt :: "bytes \<Rightarrow> error + rat"
  toSats :: "rat \<Rightarrow> 64 word"

text \<open>\<open>chainhash.NewHash\<close>: a hash has exactly 32 bytes.\<close>

definition NewHash :: "bytes \<Rightarrow> error + bytes" where
  "NewHash b = (if length b = 32 then Inr b else Inl ''invalid hash length'')"

text \<open>\<open>hex.EncodeToString\<close>: two lower-case digits per byte.\<close>

definition hexDigit :: "nat \<Rightarrow> char" where
  "hexDigit n = ''0123456789abcdef'' ! n"

definition hexEncode :: "bytes \<Rightarrow> string" where
  "hexEncode bs = concat (map (\<lambda>b. [hexDigit (unat b div 16), hexDigit (unat b mod 16)]) bs)"

text \<open>The fields of \<open>config.Config\<close> that the functions under study read or write.\<close>

record Config =
  Chain :: string
  PeginTxId :: string
  PeginAddress :: string
  PeginAmount :: "64 word"
  PeginFeeRate :: "32 word"
  PeginClaimScript :: string
  ElementsUser :: string
  ElementsPass :: string
  ElementsWallet :: string
  ElementsBackupAmount :: "64 word"
  DataDir :: string

record SentResult =
  RawHex :: string
  TxId :: string
  AmountSat :: "64 word"

subsection \<open>Connections and transaction lookup (lnd.go, lines 57-180)\<close>

text \<open>
  \<open>lndConnection\<close> reads the certificate and the macaroon and dials the node; any of
  these may fail. The model has one exchange for the three.
\<close>

definition lndConnection :: "backend \<Rightarrow> world \<Rightarrow> unit result \<times> world" where
  "lndConnection B w =
     (let r = dial B (trace w); w' = logCall Dial r w
      in case r of Some err \<Rightarrow> (Err err, w') | None \<Rightarrow> (Ok (), w'))"

definition GetClient :: "backend \<Rightarrow> world \<Rightarrow> unit result \<times> world" where
  "GetClient B w = lndConnection B w"

definition getTransaction :: "backend \<Rightarrow> string \<Rightarrow> world \<Rightarrow> Transaction result \<times> world" where
  "getTransaction B txid w =
     (let r = getTransactions B (trace w); w' = logCall GetTransactions (errOf r) w
      in case r of
           Inl err \<Rightarrow> (Err err, w')
         | Inr txs \<Rightarrow>
             (case find (\<lambda>tx. TxHash tx = txid) txs of
                Some tx \<Rightarrow> (Ok tx, w')
              | None \<Rightarrow> (Err ''txid not found'', w')))"

text \<open>Returns the number of confirmations and whether the transaction can be fee bumped.\<close>

definition GetTxConfirmations :: "backend \<Rightarrow> string \<Rightarrow> world \<Rightarrow> (32 word \<times> bool) \<times> world" where
  "GetTxConfirmations B txid w =
     (case getTransaction B txid w of
        (Ok tx, w') \<Rightarrow> ((NumConfirmations tx, 1 < length (OutputDetails tx)), w')
      | (_, w') \<Rightarrow> ((- 1, False), w'))"

subsection \<open>CanRBF (lnd.go, lines 597-630)\<close>

text \<open>
  The version is fetched once and cached in \<open>LndVerson\<close>. \<open>parts[1]\<close> panics when the
  version string has no dot, after \<open>LndVerson\<close> has been set to the first part.
\<close>

definition CanRBF :: "library \<Rightarrow> backend \<Rightarrow> world \<Rightarrow> bool result \<times> world" where
  "CanRBF L B w =
     (if LndVerson w = 0 then
        (case GetClient B w of
           (Panic, w1) \<Rightarrow> (Panic, w1)
         | (Err err, w1) \<Rightarrow> (Ok False, w1)
         | (Ok _, w1) \<Rightarrow>
             (let r = getInfo B (trace w1); w2 = logCall GetInfo (errOf r) w1
              in case r of
                   Inl err \<Rightarrow> (Ok False, w2)
                 | Inr version \<Rightarrow>
                     (let parts = Split CHR ''.'' version
                      in case ParseFloat L (parts ! 0) of
                           Inl err \<Rightarrow> (Ok False, w2)
                         | Inr a \<Rightarrow>
                             (let w3 = w2\<lparr>LndVerson := a\<rparr>
                              in if length parts < 2 then (Panic, w3)
                                 else (case ParseFloat L (parts ! 1) of
                                     Inl err \<Rightarrow> (Ok False, w3)
                                   | Inr b \<Rightarrow>
                                       (let w4 = w3\<lparr>LndVerson := LndVerson w3 + b / 100\<rparr>
                                        in (Ok (18 / 100 \<le> LndVerson w4), w4)))))))
      else (Ok (18 / 100 \<le> LndVerson w), w))"

subsection \<open>fundPsbt (lnd.go, lines 357-395)\<close>

fun fundPsbt_inputs :: "string list \<Rightarrow> OutPoint list result" where
  "fundPsbt_inputs [] = Ok []"
| "fundPsbt_inputs (i # utxos) =
     (let parts = Split CHR '':'' i in
      if length parts < 2 then Panic
      else (case Atoi (parts ! 1) of
          Inl err \<Rightarrow> Err err
        | Inr index \<Rightarrow>
            (case fundPsbt_inputs utxos of
               Ok inputs \<Rightarrow>
                 Ok (\<lparr>TxidBytes = [], TxidStr = parts ! 0, OutputIndex = word_of_int index\<rparr> # inputs)
             | Err err \<Rightarrow> Err err
             | Panic \<Rightarrow> Panic)))"

definition fundPsbt ::
  "backend \<Rightarrow> string list \<Rightarrow> (string \<rightharpoonup> 64 word) \<Rightarrow> 64 word \<Rightarrow> world \<Rightarrow> bytes result \<times> world" where
  "fundPsbt B utxos outputs feeRate w =
     (case fundPsbt_inputs utxos of
        Panic \<Rightarrow> (Panic, w)
      | Err err \<Rightarrow> (Err err, w)
      | Ok inputs \<Rightarrow>
          (let rq = \<lparr>Template = Raw inputs outputs, SatPerVbyte = feeRate, MinConfs = 1,
                     SpendUnconfirmed = False, ChangeType = CHANGE_ADDRESS_TYPE_P2TR\<rparr>;
               r = fundPsbtRpc B (trace w) rq;
               w' = logCall (FundPsbt rq) (errOf r) w
           in case r of Inl err \<Rightarrow> (Err err, w') | Inr psbt \<Rightarrow> (Ok psbt, w')))"

subsection \<open>fundPsbtSpendAll (lnd.go, lines 397-499)\<close>

text \<open>
  The inner loop over \<open>*utxoStrings\<close> for one unspent output, and the outer loop over
  \<open>unspent.Utxos\<close>. Every \<open>return nil, err\<close> inside leaves both loops.
\<close>

fun fundPsbtSpendAll_inner ::
  "backend \<Rightarrow> Utxo \<Rightarrow> string list \<Rightarrow> WireTxIn list \<Rightarrow> world \<Rightarrow> WireTxIn list result \<times> world" where
  "fundPsbtSpendAll_inner B utxo [] txin w = (Ok txin, w)"
| "fundPsbtSpendAll_inner B utxo (u # us) txin w =
     (let parts = Split CHR '':'' u in
      if length parts < 2 then (Panic, w)
      else (case Atoi (parts ! 1) of
          Inl err \<Rightarrow> (Err err, w)
        | Inr index \<Rightarrow>
            if TxidStr (Outpoint utxo) = parts ! 0 \<and> OutputIndex (Outpoint utxo) = word_of_int index
            then (case NewHash (TxidBytes (Outpoint utxo)) of
                Inl err \<Rightarrow> (Err err, w)
              | Inr hash \<Rightarrow>
                  (let r = leaseOutput B (trace w) myLockId (Outpoint utxo) 10;
                       w' = logCall (LeaseOutput myLockId (Outpoint utxo) 10) r w
                   in case r of
                        Some err \<Rightarrow> (Err err, w')
                      | None \<Rightarrow>
                          fundPsbtSpendAll_inner B utxo us
                            (txin @ [\<lparr>PreviousOutPoint =
                                       \<lparr>Hash = hash, Index = OutputIndex (Outpoint utxo)\<rparr>\<rparr>]) w'))
            else fundPsbtSpendAll_inner B utxo us txin w))"

fun fundPsbtSpendAll_outer ::
  "backend \<Rightarrow> Utxo list \<Rightarrow> string list \<Rightarrow> WireTxIn list \<Rightarrow> world \<Rightarrow> WireTxIn list result \<times> world" where
  "fundPsbtSpendAll_outer B [] us txin w = (Ok txin, w)"
| "fundPsbtSpendAll_outer B (utxo # rest) us txin w =
     (case fundPsbtSpendAll_inner B utxo us txin w of
        (Ok txin', w') \<Rightarrow> fundPsbtSpendAll_outer B rest us txin' w'
      | (Err err, w') \<Rightarrow> (Err err, w')
      | (Panic, w') \<Rightarrow> (Panic, w'))"

definition fundPsbtSpendAll ::
  "library \<Rightarrow> backend \<Rightarrow> Config \<Rightarrow> string list \<Rightarrow> string \<Rightarrow> 64 word \<Rightarrow> world \<Rightarrow> bytes result \<times> world" where
  "fundPsbtSpendAll L B cfg utxoStrings address feeRate w =
     (let r = listUnspent B (trace w) 1; w0 = logCall (ListUnspent 1) (errOf r) w
      in case r of
           Inl err \<Rightarrow> (Err err, w0)
         | Inr unspent \<Rightarrow>
             (case fundPsbtSpendAll_outer B unspent utxoStrings [] w0 of
                (Panic, w1) \<Rightarrow> (Panic, w1)
              | (Err err, w1) \<Rightarrow> (Err err, w1)
              | (Ok txin, w1) \<Rightarrow>
                  (let harnessNetParams =
                         (if Chain cfg = ''mainnet'' then MainNetParams else TestNet3Params)
                   in case DecodeAddress L address harnessNetParams of
                        Inl err \<Rightarrow> (Err err, w1)
                      | Inr parsed \<Rightarrow>
                          (case PayToAddrScript L parsed of
                             Inl err \<Rightarrow> (Err err, w1)
                           | Inr pkScript \<Rightarrow>
                               (let tx = \<lparr>Version = 2, TxIn = txin,
                                          TxOut = [\<lparr>PkScript = pkScript, Amount = 1\<rparr>]\<rparr>
                                in case NewFromUnsignedTx L tx of
                                     Inl err \<Rightarrow> (Err err, w1)
                                   | Inr packet \<Rightarrow>
                                       (let rq = \<lparr>Template = CoinSelect (Serialize L packet) 0,
                                                  SatPerVbyte = feeRate, MinConfs = 0,
                                                  SpendUnconfirmed = False,
                                                  ChangeType = CHANGE_ADDRESS_TYPE_UNSPECIFIED\<rparr>;
                                            f = fundPsbtRpc B (trace w1) rq;
                                            w2 = logCall (FundPsbt rq) (errOf f) w1
                                        in case f of
                                             Inl err \<Rightarrow>
                                               (case releaseOutputs B utxoStrings myLockId w2 of
                                                  (Panic, w3) \<Rightarrow> (Panic, w3)
                                                | (_, w3) \<Rightarrow> (Err err, w3))
                                           | Inr psbt \<Rightarrow> (Ok psbt, w2)))))))"

subsection \<open>SendCoinsWithUtxos (lnd.go, lines 208-328)\<close>

text \<open>
  The retry loop of lines 257-275. The loop variable \<open>haircut\<close> stays between 0 and 2005
  and is a mathematical integer here; the amounts are int64 values, so the subtraction
  wraps and the comparison with zero is signed. The loop state is \<open>outputs\<close>,
  \<open>psbtBytes\<close>, \<open>err\<close> and \<open>finalAmount\<close>. \<open>Err\<close> is the \<open>return nil, err\<close> after a failed
  release; \<open>Ok\<close> carries the variables as they are after the loop, be it left by \<open>break\<close>
  (then \<open>err\<close> is \<open>None\<close>) or by the loop condition.
\<close>

function SendCoinsWithUtxos_loop ::
  "backend \<Rightarrow> string list \<Rightarrow> string \<Rightarrow> 64 word \<Rightarrow> 64 word \<Rightarrow> 64 word \<Rightarrow> bytes \<Rightarrow>
   (string \<rightharpoonup> 64 word) \<Rightarrow> bytes \<Rightarrow> error option \<Rightarrow> 64 word \<Rightarrow> int \<Rightarrow> world \<Rightarrow>
   (bytes \<times> error option \<times> 64 word) result \<times> world" where
  "SendCoinsWithUtxos_loop B utxos addr amount fee feeRate lockId outputs psbtBytes err finalAmount haircut w =
     (if haircut \<le> 2000 then
        (case releaseOutputs B utxos lockId w of
           (Panic, w1) \<Rightarrow> (Panic, w1)
         | (Err e, w1) \<Rightarrow> (Err e, w1)
         | (Ok _, w1) \<Rightarrow>
             (let finalAmount1 = amount - fee - word_of_int haircut;
                  finalAmount2 = (if finalAmount1 <s 0 then 0 else finalAmount1);
                  outputs' = outputs(addr \<mapsto> finalAmount2)
              in case fundPsbt B utxos outputs' feeRate w1 of
                   (Panic, w2) \<Rightarrow> (Panic, w2)
                 | (Ok psbt, w2) \<Rightarrow> (Ok (psbt, None, finalAmount2), w2)
                 | (Err e, w2) \<Rightarrow>
                     SendCoinsWithUtxos_loop B utxos addr amount fee feeRate lockId outputs' []
                       (Some e) finalAmount2 (haircut + 5) w2))
      else (Ok (psbtBytes, err, finalAmount), w))"
  by pat_completeness auto
termination
  by (relation "measure (\<lambda>(B, utxos, addr, amount, fee, feeRate, lockId, outputs, psbtBytes, err,
        finalAmount, haircut, w). nat (2005 - haircut))") auto

text \<open>
  Lines 249-281: the fee of the first funding, the loop, and the release after a loop
  that ended with an error.
\<close>

definition SendCoinsWithUtxos_subtractFee ::
  "library \<Rightarrow> backend \<Rightarrow> string list \<Rightarrow> string \<Rightarrow> 64 word \<Rightarrow> 64 word \<Rightarrow> bytes \<Rightarrow>
   (string \<rightharpoonup> 64 word) \<Rightarrow> bytes \<Rightarrow> world \<Rightarrow> (bytes \<times> 64 word) result \<times> world" where
  "SendCoinsWithUtxos_subtractFee L B utxos addr amount feeRate lockId outputs psbtBytes w =
     (case GetFeeFromPsbt L psbtBytes of
        Inl err \<Rightarrow> (Err err, w)
      | Inr fee \<Rightarrow>
          (case SendCoinsWithUtxos_loop B utxos addr amount (toSats L fee) feeRate lockId outputs
                  psbtBytes None amount 0 w of
             (Panic, w1) \<Rightarrow> (Panic, w1)
           | (Err e, w1) \<Rightarrow> (Err e, w1)
           | (Ok (psbt, err, finalAmount), w1) \<Rightarrow>
               (case err of
                  Some e \<Rightarrow>
                    (case releaseOutputs B utxos lockId w1 of
                       (Panic, w2) \<Rightarrow> (Panic, w2)
                     | (_, w2) \<Rightarrow> (Err e, w2))
                | None \<Rightarrow> (Ok (psbt, finalAmount), w1))))"

text \<open>
  Lines 284-327: sign, deserialize, publish. \<open>msgTx.TxOut[0]\<close> panics on a transaction
  without outputs.
\<close>

definition SendCoinsWithUtxos_finalize ::
  "library \<Rightarrow> backend \<Rightarrow> string list \<Rightarrow> bool \<Rightarrow> bytes \<Rightarrow> bytes \<Rightarrow> 64 word \<Rightarrow> world \<Rightarrow>
   SentResult result \<times> world" where
  "SendCoinsWithUtxos_finalize L B utxos subtractFeeFromAmount lockId psbtBytes finalAmount w =
     (let r = finalizePsbt B (trace w) psbtBytes;
          w1 = logCall (FinalizePsbt psbtBytes) (errOf r) w
      in case r of
           Inl err \<Rightarrow>
             (case releaseOutputs B utxos lockId w1 of
                (Panic, w2) \<Rightarrow> (Panic, w2)
              | (_, w2) \<Rightarrow> (Err err, w2))
         | Inr rawTx \<Rightarrow>
             (case Deserialize L rawTx of
                Inl err \<Rightarrow> (Err err, w1)
              | Inr msgTx \<Rightarrow>
                  (let p = publishTransaction B (trace w1) rawTx ''Liquid Peg-in'';
                       w2 = logCall (PublishTransaction rawTx ''Liquid Peg-in'') p w1
                   in case p of
                        Some err \<Rightarrow>
                          (case releaseOutputs B utxos lockId w2 of
                             (Panic, w3) \<Rightarrow> (Panic, w3)
                           | (_, w3) \<Rightarrow> (Err err, w3))
                      | None \<Rightarrow>
                          (if subtractFeeFromAmount then
                             (case TxOut msgTx of
                                [] \<Rightarrow> (Panic, w2)
                              | out0 # _ \<Rightarrow>
                                  (Ok \<lparr>RawHex = hexEncode rawTx, TxId = TxHashString L msgTx,
                                       AmountSat = Amount out0\<rparr>, w2))
                           else (Ok \<lparr>RawHex = hexEncode rawTx, TxId = TxHashString L msgTx,
                                     AmountSat = finalAmount\<rparr>, w2)))))"

text \<open>
  The whole function. \<open>subtractFeeFromAmount && CanRBF()\<close> evaluates \<open>CanRBF\<close> only
  when the first operand is true.
\<close>

definition SendCoinsWithUtxos ::
  "library \<Rightarrow> backend \<Rightarrow> Config \<Rightarrow> string list \<Rightarrow> string \<Rightarrow> 64 word \<Rightarrow> 64 word \<Rightarrow> bool \<Rightarrow>
   world \<Rightarrow> SentResult result \<times> world" where
  "SendCoinsWithUtxos L B cfg utxos addr amount feeRate subtractFeeFromAmount w =
     (case lndConnection B w of
        (Panic, w1) \<Rightarrow> (Panic, w1)
      | (Err err, w1) \<Rightarrow> (Err err, w1)
      | (Ok _, w1) \<Rightarrow>
          if subtractFeeFromAmount \<and> utxos = [] then
            (Err ''at least one unspent output must be selected to send funds without change'', w1)
          else
            (let outputs = (if subtractFeeFromAmount then Map.empty else [addr \<mapsto> amount])
             in case (if subtractFeeFromAmount then CanRBF L B w1 else (Ok False, w1)) of
                  (Panic, w2) \<Rightarrow> (Panic, w2)
                | (Err err, w2) \<Rightarrow> (Err err, w2)
                | (Ok rbf, w2) \<Rightarrow>
                    if subtractFeeFromAmount \<and> rbf then
                      (case fundPsbtSpendAll L B cfg utxos addr feeRate w2 of
                         (Panic, w3) \<Rightarrow> (Panic, w3)
                       | (Err err, w3) \<Rightarrow> (Err err, w3)
                       | (Ok psbtBytes, w3) \<Rightarrow>
                           SendCoinsWithUtxos_finalize L B utxos subtractFeeFromAmount myLockId
                             psbtBytes amount w3)
                    else
                      (case fundPsbt B utxos outputs feeRate w2 of
                         (Panic, w3) \<Rightarrow> (Panic, w3)
                       | (Err err, w3) \<Rightarrow> (Err err, w3)
                       | (Ok psbtBytes, w3) \<Rightarrow>
                           if subtractFeeFromAmount then
                             (case SendCoinsWithUtxos_subtractFee L B utxos addr amount feeRate
                                     internalLockId outputs psbtBytes w3 of
                                (Panic, w4) \<Rightarrow> (Panic, w4)
                              | (Err err, w4) \<Rightarrow> (Err err, w4)
                              | (Ok (psbtBytes', finalAmount), w4) \<Rightarrow>
                                  SendCoinsWithUtxos_finalize L B utxos subtractFeeFromAmount
                                    internalLockId psbtBytes' finalAmount w4)
                           else
                             SendCoinsWithUtxos_finalize L B utxos subtractFeeFromAmount
                               internalLockId psbtBytes amount w3)))"

subsection \<open>BumpPeginFee and doCPFP (lnd.go, lines 501-595)\<close>

text \<open>
  The change output is the first one that does not pay the peg-in address; index 999
  stands when there is none. \<open>uint32(output.OutputIndex)\<close> truncates an int64.
\<close>

definition doCPFP ::
  "backend \<Rightarrow> Config \<Rightarrow> OutputDetail list \<Rightarrow> 64 word \<Rightarrow> world \<Rightarrow> unit result \<times> world" where
  "doCPFP B cfg outputs newFeeRate w =
     (if length outputs = 1 then
        (Err ''peg-in transaction has no change output, not possible to CPFP'', w)
      else
        (let outputIndex =
               (case find (\<lambda>output. OutAddress output \<noteq> PeginAddress cfg) outputs of
                  Some output \<Rightarrow> ucast (OutIndex output)
                | None \<Rightarrow> 999);
             op = \<lparr>TxidBytes = [], TxidStr = PeginTxId cfg, OutputIndex = outputIndex\<rparr>;
             r = bumpFee B (trace w) op newFeeRate;
             w' = logCall (BumpFee op newFeeRate) r w
         in case r of Some err \<Rightarrow> (Err err, w') | None \<Rightarrow> (Ok (), w')))"

definition BumpPeginFee ::
  "library \<Rightarrow> backend \<Rightarrow> Config \<Rightarrow> 64 word \<Rightarrow> world \<Rightarrow> SentResult result \<times> world" where
  "BumpPeginFee L B cfg feeRate w =
     (case GetClient B w of
        (Panic, w1) \<Rightarrow> (Panic, w1)
      | (Err err, w1) \<Rightarrow> (Err err, w1)
      | (Ok _, w1) \<Rightarrow>
     (case getTransaction B (PeginTxId cfg) w1 of
        (Panic, w2) \<Rightarrow> (Panic, w2)
      | (Err err, w2) \<Rightarrow> (Err err, w2)
      | (Ok tx, w2) \<Rightarrow>
     (case lndConnection B w2 of
        (Panic, w3) \<Rightarrow> (Panic, w3)
      | (Err err, w3) \<Rightarrow> (Err err, w3)
      | (Ok _, w3) \<Rightarrow>
     (case CanRBF L B w3 of
        (Panic, w4) \<Rightarrow> (Panic, w4)
      | (Err err, w4) \<Rightarrow> (Err err, w4)
      | (Ok rbf, w4) \<Rightarrow>
          if \<not> rbf then
            (case doCPFP B cfg (OutputDetails tx) feeRate w4 of
               (Panic, w5) \<Rightarrow> (Panic, w5)
             | (Err err, w5) \<Rightarrow> (Err err, w5)
             | (Ok _, w5) \<Rightarrow>
                 (Ok \<lparr>RawHex = [], TxId = PeginTxId cfg, AmountSat = PeginAmount cfg\<rparr>, w5))
          else
            (let r = removeTransaction B (trace w4) (PeginTxId cfg);
                 w5 = logCall (RemoveTransaction (PeginTxId cfg)) (errOf r) w4
             in case r of
                  Inl err \<Rightarrow> (Err err, w5)
                | Inr status \<Rightarrow>
                    if status \<noteq> ''Successfully removed transaction'' then
                      (Err (''cannot remove the previous transaction: '' @ status), w5)
                    else
                      (let utxos = PreviousOutpoints tx
                       in case releaseOutputs B utxos internalLockId w5 of
                            (Panic, w6) \<Rightarrow> (Panic, w6)
                          | (_, w6) \<Rightarrow>
                              (case releaseOutputs B utxos myLockId w6 of
                                 (Panic, w7) \<Rightarrow> (Panic, w7)
                               | (_, w7) \<Rightarrow>
                                   SendCoinsWithUtxos L B cfg utxos (PeginAddress cfg)
                                     (PeginAmount cfg) feeRate
                                     (length (OutputDetails tx) = 1) w7)))))))"

subsection \<open>The timer and the bump-fee handler of package main\<close>

text \<open>
  The functions of package main call other files of the program (telegram, the Elements
  RPC client, the peerswap client, an earlier interface of package ln) and the operating
  system. These calls are exchanges with \<open>services\<close>, recorded as \<open>action\<close>s together
  with the answers that matter below. \<open>go telegramStart()\<close> runs concurrently; only its
  start is recorded.
\<close>

datatype action =
    TelegramStart
  | PsListActiveSwaps "error option"
  | PsLiquidGetBalance "error option"
  | BackupAndZip string "error option"
  | TelegramSendFile string string string "error option"
  | OsRemove string "error option"
  | LnGetTxConfirmations string "32 word"
  | GetRawTransaction string "error option"
  | GetTxOutProof string
  | ClaimPegin string string string "error option"
  | TelegramSendMessage string
  | ConfigSave Config
  | LnGetTransaction string "error option"
  | LnBumpFee string "32 word" "64 word" "error option"

record services =
  listActiveSwaps :: "action list \<Rightarrow> error + nat"
  liquidGetBalance :: "action list \<Rightarrow> error + 64 word"
  backupAndZip :: "action list \<Rightarrow> string \<Rightarrow> error + string"
  telegramSendFile :: "action list \<Rightarrow> string \<Rightarrow> string \<Rightarrow> string \<Rightarrow> error option"
  osRemove :: "action list \<Rightarrow> string \<Rightarrow> error option"
  formatWithThousandSeparators :: "64 word \<Rightarrow> string"
  getTxConfirmations :: "action list \<Rightarrow> string \<Rightarrow> 32 word"
  getRawTransaction :: "action list \<Rightarrow> string \<Rightarrow> error + string"
  getTxOutProof :: "action list \<Rightarrow> string \<Rightarrow> string"
  claimPegin :: "action list \<Rightarrow> string \<Rightarrow> string \<Rightarrow> string \<Rightarrow> error + string"
  lnGetTransaction :: "action list \<Rightarrow> string \<Rightarrow> error + Transaction"
  lnBumpFee :: "action list \<Rightarrow> string \<Rightarrow> 32 word \<Rightarrow> 64 word \<Rightarrow> error option"

text \<open>The package-level state of main: \<open>config.Config\<close>, \<open>chatId\<close>, and the actions so far.\<close>

record app =
  config :: Config
  chatId :: int
  actions :: "action list"

definition act :: "action \<Rightarrow> app \<Rightarrow> app" where
  "act a s = s\<lparr>actions := actions s @ [a]\<rparr>"

text \<open>\<open>liquidBackup\<close> (main.go, lines 1043-1093); the list of swaps is modelled by its length.\<close>

definition liquidBackup :: "services \<Rightarrow> bool \<Rightarrow> app \<Rightarrow> app" where
  "liquidBackup S force s =
     (if ElementsPass (config s) = [] \<or> ElementsUser (config s) = [] \<or> chatId s = 0 then s
      else
        (let res = listActiveSwaps S (actions s); s1 = act (PsListActiveSwaps (errOf res)) s
         in case res of
              Inl err \<Rightarrow> s1
            | Inr swaps \<Rightarrow>
                if 0 < swaps \<and> \<not> force then s1
                else
                  (let res2 = liquidGetBalance S (actions s1);
                       s2 = act (PsLiquidGetBalance (errOf res2)) s1
                   in case res2 of
                        Inl err \<Rightarrow> s2
                      | Inr satAmount \<Rightarrow>
                          if satAmount = ElementsBackupAmount (config s2) \<and> \<not> force then s2
                          else
                            (let wallet = ElementsWallet (config s2);
                                 z = backupAndZip S (actions s2) wallet;
                                 s3 = act (BackupAndZip wallet (errOf z)) s2
                             in case z of
                                  Inl err \<Rightarrow> s3
                                | Inr destinationZip \<Rightarrow>
                                    (let caption = formatWithThousandSeparators S satAmount;
                                         t = telegramSendFile S (actions s3) (DataDir (config s3))
                                               destinationZip caption;
                                         s4 = act (TelegramSendFile (DataDir (config s3))
                                                     destinationZip caption t) s3
                                     in case t of
                                          Some err \<Rightarrow> s4
                                        | None \<Rightarrow>
                                            (let path = DataDir (config s4) @ ''/'' @ destinationZip;
                                                 d = osRemove S (actions s4) path;
                                                 s5 = act (OsRemove path d) s4;
                                                 s6 = s5\<lparr>config := (config s5)
                                                        \<lparr>ElementsBackupAmount := satAmount\<rparr>\<rparr>
                                             in act (ConfigSave (config s6)) s6))))))"

text \<open>
  One round of the loop of \<open>startTimer\<close> (main.go, lines 998-1041). The comparison
  \<open>confs >= 102\<close> is on int32.
\<close>

definition timerTick :: "services \<Rightarrow> app \<Rightarrow> app" where
  "timerTick S s =
     (let s1 = liquidBackup S False (act TelegramStart s);
          txid = PeginTxId (config s1)
      in if txid \<noteq> [] then
           (let confs = getTxConfirmations S (actions s1) txid;
                s2 = act (LnGetTxConfirmations txid confs) s1
            in if 102 \<le>s confs then
                 (let r = getRawTransaction S (actions s2) txid;
                      s3 = act (GetRawTransaction txid (errOf r)) s2;
                      s6 = (case r of
                              Inr rawTx \<Rightarrow>
                                (let proof = getTxOutProof S (actions s3) txid;
                                     s4 = act (GetTxOutProof txid) s3;
                                     script = PeginClaimScript (config s4);
                                     c = claimPegin S (actions s4) rawTx proof script;
                                     s5 = act (ClaimPegin rawTx proof script (errOf c)) s4
                                 in if (case c of
                                          Inl err \<Rightarrow> err \<noteq> ''timeout reading data from server''
                                        | Inr _ \<Rightarrow> False)
                                    then act (TelegramSendMessage
                                                ''Peg-in claim FAILED! See log for details.'') s5
                                    else act (TelegramSendMessage ''Peg-in success!'') s5)
                            | Inl err \<Rightarrow>
                                act (TelegramSendMessage
                                       ''Peg-In getrawtx FAILED! See log for details.'') s3);
                      s7 = s6\<lparr>config := (config s6)\<lparr>PeginTxId := []\<rparr>\<rparr>
                  in act (ConfigSave (config s7)) s7)
               else s2)
         else s1)"

text \<open>
  \<open>startTimer\<close> never returns: it runs one round per tick of a 60-second ticker. The
  state after the first \<open>n\<close> ticks:
\<close>

fun startTimer :: "services \<Rightarrow> nat \<Rightarrow> app \<Rightarrow> app" where
  "startTimer S 0 s = s"
| "startTimer S (Suc n) s = startTimer S n (timerTick S s)"

text \<open>
  \<open>bumpfeeHandler\<close> (main.go, lines 1241-1294). The request is reduced to its method,
  the outcome of \<open>ParseForm\<close> and the form values; the response is the one call the
  handler makes on the response writer. \<open>tx.OutputDetails[index]\<close> panics on an empty
  list of outputs.
\<close>

record HttpRequest =
  Method :: string
  ParseForm :: "error option"
  FormValue :: "string \<Rightarrow> string"

datatype Response =
    HttpError string nat
  | RedirectWithError string error
  | Redirect string nat

fun changeIndex :: "OutputDetail list \<Rightarrow> 64 word \<Rightarrow> nat \<Rightarrow> nat option" where
  "changeIndex [] amount i = None"
| "changeIndex (output # rest) amount i =
     (if OutAmount output \<noteq> amount then Some i else changeIndex rest amount (Suc i))"

definition bumpfeeHandler :: "services \<Rightarrow> HttpRequest \<Rightarrow> app \<Rightarrow> Response result \<times> app" where
  "bumpfeeHandler S r s =
     (if Method r = ''POST'' then
        (case ParseForm r of
           Some err \<Rightarrow> (Ok (HttpError ''Error parsing form data'' 400), s)
         | None \<Rightarrow>
        (case ParseUint (FormValue r ''feeRate'') of
           Inl err \<Rightarrow> (Ok (RedirectWithError ''/bitcoin?'' err), s)
         | Inr fee \<Rightarrow>
             if PeginTxId (config s) = [] then
               (Ok (RedirectWithError ''/bitcoin?'' ''no pending peg-in''), s)
             else
               (let txid = PeginTxId (config s);
                    t = lnGetTransaction S (actions s) txid;
                    s1 = act (LnGetTransaction txid (errOf t)) s
                in case t of
                     Inl err \<Rightarrow> (Ok (RedirectWithError ''/bitcoin?'' err), s1)
                   | Inr tx \<Rightarrow>
                       (let index = (case changeIndex (OutputDetails tx) (PeginAmount (config s1)) 0 of
                                       Some i \<Rightarrow> (word_of_nat i :: 32 word)
                                     | None \<Rightarrow> 0)
                        in if length (OutputDetails tx) \<le> unat index then (Panic, s1)
                           else if OutAmount (OutputDetails tx ! unat index) = PeginAmount (config s1)
                           then (Ok (RedirectWithError ''/bitcoin?''
                                       ''peg-in tx has no change, not possible to bump''), s1)
                           else
                             (let b = lnBumpFee S (actions s1) txid index fee;
                                  s2 = act (LnBumpFee txid index fee b) s1
                              in case b of
                                   Some err \<Rightarrow> (Ok (RedirectWithError ''/bitcoin?'' err), s2)
                                 | None \<Rightarrow>
                                     (let s3 = s2\<lparr>config := (config s2)
                                                   \<lparr>PeginFeeRate := ucast fee\<rparr>\<rparr>;
                                          s4 = act (ConfigSave (config s3)) s3
                                      in (Ok (Redirect ''/bitcoin'' 303), s4)))))))
      else (Ok (HttpError ''Method not allowed'' 405), s))"

subsection \<open>Notions used in the statements\<close>

text \<open>
  An outpoint string is well formed when \<open>releaseOutputs\<close> and \<open>fundPsbt\<close> can read it:
  it has a colon, and what follows the first colon (up to the next one) is an integer.
  \<open>outpointOf\<close> is the outpoint both functions build from it.
\<close>

definition wellFormed :: "string \<Rightarrow> bool" where
  "wellFormed u =
     (2 \<le> length (Split CHR '':'' u) \<and>
      (case Atoi (Split CHR '':'' u ! 1) of Inr _ \<Rightarrow> True | Inl _ \<Rightarrow> False))"

definition outpointOf :: "string \<Rightarrow> OutPoint" where
  "outpointOf u =
     \<lparr>TxidBytes = [], TxidStr = Split CHR '':'' u ! 0,
      OutputIndex =
        word_of_int (case Atoi (Split CHR '':'' u ! 1) of Inr index \<Rightarrow> index | Inl _ \<Rightarrow> 0)\<rparr>"

text \<open>The exchange of a release that the backend accepted.\<close>

definition released :: "bytes \<Rightarrow> string \<Rightarrow> event" where
  "released lockId u = Call (ReleaseOutput lockId (outpointOf u)) None"

subsection \<open>Backends and services for concrete runs\<close>

text \<open>A backend that accepts every request and has nothing to report.\<close>

definition quietBackend :: backend where
  "quietBackend =
     \<lparr>dial = (\<lambda>tr. None),
      listUnspent = (\<lambda>tr n. Inr []),
      getTransactions = (\<lambda>tr. Inr []),
      getInfo = (\<lambda>tr. Inr ''0.17.4-beta''),
      leaseOutput = (\<lambda>tr i op n. None),
      releaseOutput = (\<lambda>tr i op. None),
      fundPsbtRpc = (\<lambda>tr rq. Inr []),
      finalizePsbt = (\<lambda>tr p. Inr []),
      publishTransaction = (\<lambda>tr raw label. None),
      removeTransaction = (\<lambda>tr txid. Inr ''Successfully removed transaction''),
      bumpFee = (\<lambda>tr op rate. None)\<rparr>"

text \<open>A backend that refuses to release any output of the transaction \<open>bb\<close>.\<close>

definition stubbornBackend :: backend where
  "stubbornBackend =
     quietBackend\<lparr>releaseOutput :=
       (\<lambda>tr i op. if TxidStr op = ''bb'' then Some ''output is locked by another id'' else None)\<rparr>"

definition freshWorld :: world where
  "freshWorld = \<lparr>trace = [], LndVerson = 0\<rparr>"

text \<open>A node whose history holds one pending peg-in with a change output.\<close>

definition pendingTx :: Transaction where
  "pendingTx =
     \<lparr>TxHash = ''aa'', NumConfirmations = 3,
      OutputDetails = [\<lparr>OutAddress = ''pegin'', OutIndex = 0, OutAmount = 1000\<rparr>,
                       \<lparr>OutAddress = ''change'', OutIndex = 1, OutAmount = 500\<rparr>],
      PreviousOutpoints = [''cc:0'', ''dd:1''], RawTxHex = []\<rparr>"

definition historyBackend :: backend where
  "historyBackend = quietBackend\<lparr>getTransactions := (\<lambda>tr. Inr [pendingTx])\<rparr>"

text \<open>The same peg-in as a sweep: one output, no change.\<close>

definition sweepTx :: Transaction where
  "sweepTx =
     \<lparr>TxHash = ''aa'', NumConfirmations = 0,
      OutputDetails = [\<lparr>OutAddress = ''pegin'', OutIndex = 0, OutAmount = 1000\<rparr>],
      PreviousOutpoints = [''cc:0'', ''dd:1''], RawTxHex = []\<rparr>"

definition sweepBackend :: backend where
  "sweepBackend = quietBackend\<lparr>getTransactions := (\<lambda>tr. Inr [sweepTx])\<rparr>"

text \<open>
  Stand-ins for the library functions, simple enough to evaluate: numbers are strings
  of digits, an address is its characters, a packet is serialized as its output scripts,
  and every non-empty byte string deserializes to a transaction with one output.
\<close>

definition plainLibrary :: library where
  "plainLibrary =
     \<lparr>ParseFloat = (\<lambda>s. if s \<noteq> [] \<and> list_all is_digit s then Inr (of_nat (digits_val s))
                         else Inl (syntax_error ''ParseFloat'' s)),
      DecodeAddress = (\<lambda>a n. if a = [] then Inl ''decoded address is of unknown format''
                             else Inr (map of_char a)),
      PayToAddrScript = (\<lambda>a. Inr (0 # a)),
      NewFromUnsignedTx = (\<lambda>tx. Inr (Packet tx)),
      Serialize = (\<lambda>p. case p of Packet tx \<Rightarrow> concat (map PkScript (TxOut tx))),
      Deserialize = (\<lambda>raw. if raw = [] then Inl ''EOF''
                            else Inr \<lparr>Version = 2, TxIn = [],
                                      TxOut = [\<lparr>PkScript = raw, Amount = 900\<rparr>]\<rparr>),
      TxHashString = (\<lambda>tx. hexEncode (concat (map PkScript (TxOut tx)))),
      GetFeeFromPsbt = (\<lambda>p. Inr (3 / 2000000)),
      toSats = (\<lambda>r. word_of_int \<lfloor>r * 100000000\<rfloor>)\<rparr>"

definition peginConfig :: Config where
  "peginConfig =
     \<lparr>Chain = ''mainnet'', PeginTxId = ''aa'', PeginAddress = ''pegin'', PeginAmount = 1000,
      PeginFeeRate = 10, PeginClaimScript = ''0014'', ElementsUser = [], ElementsPass = [],
      ElementsWallet = ''peerswap'', ElementsBackupAmount = 0, DataDir = ''/data''\<rparr>"

text \<open>A backend whose signer returns the two bytes \<open>de ad\<close> as the final transaction.\<close>

definition signingBackend :: backend where
  "signingBackend = quietBackend\<lparr>finalizePsbt := (\<lambda>tr p. Inr [0xde, 0xad])\<rparr>"

text \<open>
  An unspent output is the one a caller's string names when the transaction id and the
  output index agree: the comparison of line 419.
\<close>

definition sameOutpoint :: "Utxo \<Rightarrow> string \<Rightarrow> bool" where
  "sameOutpoint utxo u =
     (TxidStr (Outpoint utxo) = TxidStr (outpointOf u) \<and>
      OutputIndex (Outpoint utxo) = OutputIndex (outpointOf u))"

text \<open>The exchange of a ten-second lease under \<open>myLockId\<close> that the backend accepted.\<close>

definition leased :: "Utxo \<Rightarrow> event" where
  "leased utxo = Call (LeaseOutput myLockId (Outpoint utxo) 10) None"

definition isLease :: "event \<Rightarrow> bool" where
  "isLease ev = (case ev of Call (LeaseOutput _ _ _) _ \<Rightarrow> True | _ \<Rightarrow> False)"

definition isRelease :: "event \<Rightarrow> bool" where
  "isRelease ev = (case ev of Call (ReleaseOutput _ _) _ \<Rightarrow> True | _ \<Rightarrow> False)"

text \<open>A wallet with two unspent outputs, and backends built on it.\<close>

definition coinCC :: Utxo where
  "coinCC = \<lparr>Address = ''bc1qcc'', AmountSat = 600000, Confirmations = 6,
             Outpoint = \<lparr>TxidBytes = replicate 32 0xcc, TxidStr = ''cc'', OutputIndex = 0\<rparr>\<rparr>"

definition coinEE :: Utxo where
  "coinEE = \<lparr>Address = ''bc1qee'', AmountSat = 250000, Confirmations = 3,
             Outpoint = \<lparr>TxidBytes = replicate 32 0xee, TxidStr = ''ee'', OutputIndex = 2\<rparr>\<rparr>"

definition walletBackend :: backend where
  "walletBackend = quietBackend\<lparr>listUnspent := (\<lambda>tr n. Inr [coinCC, coinEE])\<rparr>"

definition pickyBackend :: backend where
  "pickyBackend =
     walletBackend\<lparr>leaseOutput :=
       (\<lambda>tr i op n. if TxidStr op = ''ee'' then Some ''output already locked'' else None)\<rparr>"

definition brokeBackend :: backend where
  "brokeBackend = walletBackend\<lparr>fundPsbtRpc := (\<lambda>tr rq. Inl ''insufficient funds'')\<rparr>"

text \<open>
  The reservations that a sequence of exchanges leaves in the lock table of the backend,
  read off the exchanges themselves: an accepted lease reserves the outpoint under the
  given id, an accepted release frees it, and an accepted funding from an explicit list
  of inputs reserves these inputs under the default id of the backend, which
  \<open>internalLockId\<close> repeats. Refused requests change nothing. Expiry is left out: a
  reservation stands until it is released.
\<close>

type_synonym lock = "bytes \<times> string \<times> 32 word"

fun lockStep :: "lock set \<Rightarrow> event \<Rightarrow> lock set" where
  "lockStep ls (Call (LeaseOutput lockId op expiry) None) =
     insert (lockId, TxidStr op, OutputIndex op) ls"
| "lockStep ls (Call (ReleaseOutput lockId op) None) =
     ls - {(lockId, TxidStr op, OutputIndex op)}"
| "lockStep ls (Call (FundPsbt rq) None) =
     (case Template rq of
        Raw inputs outputs \<Rightarrow>
          ls \<union> (\<lambda>op. (internalLockId, TxidStr op, OutputIndex op)) ` set inputs
      | CoinSelect psbt i \<Rightarrow> ls)"
| "lockStep ls _ = ls"

definition held :: "trace \<Rightarrow> lock set" where
  "held tr = foldl lockStep {} tr"

text \<open>
  The haircuts of the retry loop in the order of the attempts, the funding request that
  the attempt with a given haircut has to send, the funding requests of a trace with the
  errors they met, and the reservation of a caller's outpoint under a lock id.
\<close>

definition haircuts :: "int list" where
  "haircuts = map (\<lambda>k. 5 * int k) [0..<401]"

definition attempt ::
  "string list \<Rightarrow> (string \<rightharpoonup> 64 word) \<Rightarrow> string \<Rightarrow> 64 word \<Rightarrow> 64 word \<Rightarrow> 64 word \<Rightarrow> int \<Rightarrow>
   FundPsbtRequest" where
  "attempt utxos outputs addr amount fee feeRate haircut =
     \<lparr>Template =
        Raw (map outpointOf utxos)
          (outputs(addr \<mapsto> (if amount - fee - word_of_int haircut <s 0 then 0
                              else amount - fee - word_of_int haircut))),
      SatPerVbyte = feeRate, MinConfs = 1, SpendUnconfirmed = False,
      ChangeType = CHANGE_ADDRESS_TYPE_P2TR\<rparr>"

fun fundings :: "trace \<Rightarrow> (FundPsbtRequest \<times> error option) list" where
  "fundings [] = []"
| "fundings (Call (FundPsbt rq) e # tr) = (rq, e) # fundings tr"
| "fundings (_ # tr) = fundings tr"

definition lockOf :: "bytes \<Rightarrow> string \<Rightarrow> lock" where
  "lockOf lockId u = (lockId, TxidStr (outpointOf u), OutputIndex (outpointOf u))"

text \<open>
  A backend that funds only as long as nothing has been asked of it, and the world after
  its first funding of \<open>cc:0\<close>.
\<close>

definition stingyBackend :: backend where
  "stingyBackend =
     quietBackend\<lparr>fundPsbtRpc := (\<lambda>tr rq. if tr = [] then Inr [] else Inl ''fee too low'')\<rparr>"

definition fundedWorld :: world where
  "fundedWorld =
     \<lparr>trace = [Call (FundPsbt \<lparr>Template = Raw [outpointOf ''cc:0''] Map.empty, SatPerVbyte = 5,
                                MinConfs = 1, SpendUnconfirmed = False,
                                ChangeType = CHANGE_ADDRESS_TYPE_P2TR\<rparr>) None],
      LndVerson = 17 / 100\<rparr>"

text \<open>
  The node with the pending peg-in, at a version that can replace by fee, and the same
  node when it refuses to release any output of the transaction \<open>cc\<close>.
\<close>

definition rbfBackend :: backend where
  "rbfBackend =
     historyBackend\<lparr>getInfo := (\<lambda>tr. Inr ''0.18.0-beta''),
                     finalizePsbt := (\<lambda>tr p. Inr [0xde, 0xad])\<rparr>"

definition lockedBackend :: backend where
  "lockedBackend =
     rbfBackend\<lparr>releaseOutput :=
       (\<lambda>tr i op. if TxidStr op = ''cc'' then Some ''output is locked by another id'' else None)\<rparr>"

text \<open>
  The number of claim attempts among a list of actions, and the actions that belong to
  the handling of a peg-in.
\<close>

definition isClaim :: "action \<Rightarrow> bool" where
  "isClaim a = (case a of ClaimPegin _ _ _ _ \<Rightarrow> True | _ \<Rightarrow> False)"

definition claimAttempts :: "action list \<Rightarrow> nat" where
  "claimAttempts as = length (filter isClaim as)"

definition peginAction :: "action \<Rightarrow> bool" where
  "peginAction a =
     (case a of
        LnGetTxConfirmations _ _ \<Rightarrow> True
      | GetRawTransaction _ _ \<Rightarrow> True
      | GetTxOutProof _ \<Rightarrow> True
      | ClaimPegin _ _ _ _ \<Rightarrow> True
      | _ \<Rightarrow> False)"

text \<open>
  What one or more rounds of the timer may do to a tracked id \<open>txid\<close>, given the id
  \<open>txid'\<close> after them and the actions \<open>new\<close> they added: with no id tracked nothing
  of a peg-in happens; otherwise either the id stands, no confirmation count of 102 or
  more has been seen and nothing has been fetched or claimed, or the id is cleared, a
  count of 102 or more has been seen, and there was one claim attempt when the raw
  transaction could be fetched and none when it could not.
\<close>

definition tracked :: "string \<Rightarrow> string \<Rightarrow> action list \<Rightarrow> bool" where
  "tracked txid txid' new =
     ((txid = [] \<longrightarrow> list_all (\<lambda>a. \<not> peginAction a) new \<and> txid' = []) \<and>
      (txid \<noteq> [] \<longrightarrow>
        (txid' = txid \<and> claimAttempts new = 0 \<and> GetRawTransaction txid None \<notin> set new \<and>
         (\<forall>c. LnGetTxConfirmations txid c \<in> set new \<longrightarrow> \<not> 102 \<le>s c))
      \<or> (txid' = [] \<and> (\<exists>confs. 102 \<le>s confs \<and> LnGetTxConfirmations txid confs \<in> set new) \<and>
         claimAttempts new \<le> 1 \<and>
         (claimAttempts new = 1) = (GetRawTransaction txid None \<in> set new))))"

text \<open>
  Services for a peg-in that has reached 102 confirmations, with and without a working
  source of raw transactions, and the program state with that peg-in pending.
\<close>

definition deepServices :: services where
  "deepServices =
     \<lparr>listActiveSwaps = (\<lambda>as. Inr 0),
      liquidGetBalance = (\<lambda>as. Inr 0),
      backupAndZip = (\<lambda>as wallet. Inr ''backup.zip''),
      telegramSendFile = (\<lambda>as dir file caption. None),
      osRemove = (\<lambda>as path. None),
      formatWithThousandSeparators = (\<lambda>n. ''0''),
      getTxConfirmations = (\<lambda>as txid. 102),
      getRawTransaction = (\<lambda>as txid. Inr ''0200''),
      getTxOutProof = (\<lambda>as txid. ''0a0b''),
      claimPegin = (\<lambda>as rawTx proof script. Inr ''ff''),
      lnGetTransaction = (\<lambda>as txid. Inr pendingTx),
      lnBumpFee = (\<lambda>as txid index rate. None)\<rparr>"

definition offlineServices :: services where
  "offlineServices =
     deepServices\<lparr>getRawTransaction := (\<lambda>as txid. Inl ''connection refused'')\<rparr>"

definition pendingApp :: app where
  "pendingApp = \<lparr>config = peginConfig, chatId = 0, actions = []\<rparr>"

section \<open>Properties\<close>

subsection \<open>releaseOutputs\<close>

lemmas string_evals =
  Atoi_def is_digit_def digits_val_def digit_val_def syntax_error_def range_error_def
  wellFormed_def outpointOf_def

lemma releaseOutputs_step:
  "wellFormed u \<Longrightarrow>
   releaseOutputs B (u # us) lockId w =
     (case releaseOutput B (trace w) lockId (outpointOf u) of
        Some err \<Rightarrow> (Err err, logCall (ReleaseOutput lockId (outpointOf u)) (Some err) w)
      | None \<Rightarrow> releaseOutputs B us lockId (logCall (ReleaseOutput lockId (outpointOf u)) None w))"
  by (auto simp: wellFormed_def outpointOf_def Let_def split: sum.splits option.splits)

lemma releaseOutputs_malformed:
  "2 \<le> length (Split CHR '':'' u) \<Longrightarrow> Atoi (Split CHR '':'' u ! 1) = Inl e \<Longrightarrow>
   releaseOutputs B (u # us) lockId w = (Ok (), w)"
  by (simp add: Let_def)

lemma releaseOutputs_append:
  "list_all wellFormed pre \<Longrightarrow> releaseOutputs B pre lockId w = (Ok (), w1) \<Longrightarrow>
   releaseOutputs B (pre @ rest) lockId w = releaseOutputs B rest lockId w1"
proof (induction pre arbitrary: w)
  case Nil
  then show ?case by simp
next
  case (Cons u pre)
  from Cons.prems have wf: "wellFormed u" and wfs: "list_all wellFormed pre" by simp_all
  show ?case
  proof (cases "releaseOutput B (trace w) lockId (outpointOf u)")
    case None
    with Cons.prems wf have
      "releaseOutputs B pre lockId (logCall (ReleaseOutput lockId (outpointOf u)) None w) = (Ok (), w1)"
      by (simp add: releaseOutputs_step del: releaseOutputs.simps(2))
    from Cons.IH [OF wfs this] None wf show ?thesis
      by (simp add: releaseOutputs_step del: releaseOutputs.simps(2))
  next
    case (Some err)
    with Cons.prems wf show ?thesis
      by (simp add: releaseOutputs_step del: releaseOutputs.simps(2))
  qed
qed

lemma releaseOutputs_trace:
  "list_all wellFormed us \<Longrightarrow> releaseOutputs B us lockId w = (Ok (), w1) \<Longrightarrow>
   trace w1 = trace w @ map (released lockId) us \<and> LndVerson w1 = LndVerson w"
proof (induction us arbitrary: w)
  case Nil
  then show ?case by simp
next
  case (Cons u us)
  from Cons.prems have wf: "wellFormed u" and wfs: "list_all wellFormed us" by simp_all
  show ?case
  proof (cases "releaseOutput B (trace w) lockId (outpointOf u)")
    case None
    with Cons.prems wf have
      "releaseOutputs B us lockId (logCall (ReleaseOutput lockId (outpointOf u)) None w) = (Ok (), w1)"
      by (simp add: releaseOutputs_step del: releaseOutputs.simps(2))
    from Cons.IH [OF wfs this] show ?thesis
      by (simp add: logCall_def released_def)
  next
    case (Some err)
    with Cons.prems wf show ?thesis
      by (simp add: releaseOutputs_step del: releaseOutputs.simps(2))
  qed
qed

text \<open>
  C10. Let the entries of \<open>pre\<close> be well formed and released one after the other with the
  backend's consent, which leaves the world \<open>w1\<close>. If the next entry \<open>u\<close> has a colon but
  no integer after it, \<open>releaseOutputs\<close> returns \<open>nil\<close> in the world \<open>w1\<close>: the exchanges are
  exactly the releases of \<open>pre\<close>, and neither \<open>u\<close> nor any entry of \<open>post\<close> has been the
  subject of a request. If instead \<open>u\<close> is well formed and the backend answers its release
  with an error, that error is returned, the failed request is the last exchange, and no
  entry of \<open>post\<close> has been the subject of a request.
\<close>

theorem releaseOutputs_stops_at_first_failure:
  "(list_all wellFormed pre \<and> releaseOutputs B pre lockId w = (Ok (), w1) \<and>
    2 \<le> length (Split CHR '':'' u) \<and> Atoi (Split CHR '':'' u ! 1) = Inl e
    \<longrightarrow> releaseOutputs B (pre @ u # post) lockId w = (Ok (), w1) \<and>
        trace w1 = trace w @ map (released lockId) pre)
   \<and>
   (list_all wellFormed pre \<and> releaseOutputs B pre lockId w = (Ok (), w1) \<and>
    wellFormed u \<and> releaseOutput B (trace w1) lockId (outpointOf u) = Some err
    \<longrightarrow> releaseOutputs B (pre @ u # post) lockId w =
          (Err err, w1\<lparr>trace := trace w @ map (released lockId) pre @
                                 [Call (ReleaseOutput lockId (outpointOf u)) (Some err)]\<rparr>))"
proof (intro conjI impI)
  assume h: "list_all wellFormed pre \<and> releaseOutputs B pre lockId w = (Ok (), w1) \<and>
    2 \<le> length (Split CHR '':'' u) \<and> Atoi (Split CHR '':'' u ! 1) = Inl e"
  then show "releaseOutputs B (pre @ u # post) lockId w = (Ok (), w1)"
    using releaseOutputs_append [of pre B lockId w w1 "u # post"]
    by (simp add: releaseOutputs_malformed del: releaseOutputs.simps(2))
  from h show "trace w1 = trace w @ map (released lockId) pre"
    using releaseOutputs_trace by blast
next
  assume h: "list_all wellFormed pre \<and> releaseOutputs B pre lockId w = (Ok (), w1) \<and>
    wellFormed u \<and> releaseOutput B (trace w1) lockId (outpointOf u) = Some err"
  then have t: "trace w1 = trace w @ map (released lockId) pre"
    using releaseOutputs_trace by blast
  from h show "releaseOutputs B (pre @ u # post) lockId w =
          (Err err, w1\<lparr>trace := trace w @ map (released lockId) pre @
                                 [Call (ReleaseOutput lockId (outpointOf u)) (Some err)]\<rparr>)"
    using releaseOutputs_append [of pre B lockId w w1 "u # post"]
    by (simp add: releaseOutputs_step logCall_def t del: releaseOutputs.simps(2))
qed

theorem releaseOutputs_stops_at_first_failure_witness:
  "releaseOutputs quietBackend [''aa:0'', ''bb:x'', ''cc:1''] myLockId freshWorld =
     (Ok (), \<lparr>trace = [released myLockId ''aa:0''], LndVerson = 0\<rparr>)
   \<and> releaseOutputs stubbornBackend [''aa:0'', ''bb:7'', ''cc:1''] myLockId freshWorld =
     (Err ''output is locked by another id'',
      \<lparr>trace = [released myLockId ''aa:0'',
                Call (ReleaseOutput myLockId \<lparr>TxidBytes = [], TxidStr = ''bb'', OutputIndex = 7\<rparr>)
                  (Some ''output is locked by another id'')],
       LndVerson = 0\<rparr>)"
proof -
  let ?w1 = "\<lparr>trace = [released myLockId ''aa:0''], LndVerson = 0\<rparr>"
  have a: "releaseOutputs quietBackend [''aa:0''] myLockId freshWorld = (Ok (), ?w1)"
    by (simp add: string_evals released_def logCall_def quietBackend_def freshWorld_def)
  have b: "releaseOutputs stubbornBackend [''aa:0''] myLockId freshWorld = (Ok (), ?w1)"
    by (simp add: string_evals released_def logCall_def quietBackend_def stubbornBackend_def
        freshWorld_def)
  have c: "list_all wellFormed [''aa:0'']" "wellFormed ''bb:7''"
    "2 \<le> length (Split CHR '':'' ''bb:x'')"
    "Atoi (Split CHR '':'' ''bb:x'' ! 1) = Inl (syntax_error ''Atoi'' ''x'')"
    "releaseOutput stubbornBackend (trace ?w1) myLockId (outpointOf ''bb:7'')
       = Some ''output is locked by another id''"
    by (simp_all add: string_evals quietBackend_def stubbornBackend_def)
  from releaseOutputs_stops_at_first_failure
         [of "[''aa:0'']" quietBackend myLockId freshWorld ?w1 "''bb:x''"
             "syntax_error ''Atoi'' ''x''" "[''cc:1'']", THEN conjunct1] a c
  have 1: "releaseOutputs quietBackend [''aa:0'', ''bb:x'', ''cc:1''] myLockId freshWorld = (Ok (), ?w1)"
    by simp
  from releaseOutputs_stops_at_first_failure
         [of "[''aa:0'']" stubbornBackend myLockId freshWorld ?w1 "''bb:7''" _
             "[''cc:1'']" "''output is locked by another id''", THEN conjunct2] b c
  have 2: "releaseOutputs stubbornBackend [''aa:0'', ''bb:7'', ''cc:1''] myLockId freshWorld =
     (Err ''output is locked by another id'',
      ?w1\<lparr>trace := trace freshWorld @ map (released myLockId) [''aa:0''] @
                [Call (ReleaseOutput myLockId (outpointOf ''bb:7''))
                   (Some ''output is locked by another id'')]\<rparr>)"
    by simp
  have 3: "outpointOf ''bb:7'' = \<lparr>TxidBytes = [], TxidStr = ''bb'', OutputIndex = 7\<rparr>"
    by (simp add: string_evals)
  from 1 2 3 show ?thesis by (simp add: freshWorld_def)
qed

lemmas fixture_defs = quietBackend_def historyBackend_def pendingTx_def plainLibrary_def
  peginConfig_def freshWorld_def sweepBackend_def sweepTx_def stubbornBackend_def

lemmas run_defs = GetClient_def lndConnection_def getTransaction_def CanRBF_def logCall_def
  errOf_def Let_def

subsection \<open>GetTxConfirmations\<close>

text \<open>
  C7. When the list of transactions the backend reports has no entry with the given id,
  \<open>GetTxConfirmations\<close> returns \<open>-1\<close> (as an int32, hence different from zero) and
  \<open>False\<close>. When \<open>tx\<close> is the first entry with that id, it returns the confirmation count
  of \<open>tx\<close>, and the flag is true exactly when \<open>tx\<close> has more than one output.
\<close>

theorem GetTxConfirmations_sentinel:
  "(getTransactions B (trace w) = Inr txs \<and> txid \<notin> TxHash ` set txs
      \<longrightarrow> fst (GetTxConfirmations B txid w) = (- 1, False))
   \<and> (getTransactions B (trace w) = Inr txs \<and> find (\<lambda>tx. TxHash tx = txid) txs = Some tx
      \<longrightarrow> fst (GetTxConfirmations B txid w) = (NumConfirmations tx, 1 < length (OutputDetails tx)))
   \<and> sint (- 1 :: 32 word) = - 1 \<and> (- 1 :: 32 word) \<noteq> 0"
proof -
  have "find (\<lambda>tx. TxHash tx = txid) txs = None" if "txid \<notin> TxHash ` set txs"
    using that by (auto simp: find_None_iff)
  then show ?thesis
    by (auto simp: GetTxConfirmations_def getTransaction_def Let_def)
qed

theorem GetTxConfirmations_sentinel_witness:
  "fst (GetTxConfirmations historyBackend ''zz'' freshWorld) = (- 1, False)
   \<and> fst (GetTxConfirmations historyBackend ''aa'' freshWorld) = (3, True)"
  using GetTxConfirmations_sentinel [of historyBackend freshWorld "[pendingTx]" "''zz''" pendingTx]
    GetTxConfirmations_sentinel [of historyBackend freshWorld "[pendingTx]" "''aa''" pendingTx]
  by (simp add: historyBackend_def quietBackend_def pendingTx_def freshWorld_def)

subsection \<open>BumpPeginFee on a node that cannot replace by fee\<close>

text \<open>
  C6. Suppose the connections succeed, the pending peg-in \<open>tx\<close> is found in the history
  and \<open>CanRBF\<close> answers no, all of which leaves the world \<open>w4\<close>. If \<open>tx\<close> has exactly one
  output, \<open>BumpPeginFee\<close> fails and sends nothing more. Otherwise it sends one \<open>BumpFee\<close>
  request at the new fee rate for the outpoint made of the peg-in transaction id and the
  index of the change output (the first output that does not pay the peg-in address;
  index 999 when every output pays it); when the backend accepts, the result carries the
  peg-in transaction id as it stands in the configuration, and when it refuses, its error
  is returned.
\<close>

theorem BumpPeginFee_without_RBF:
  assumes "GetClient B w = (Ok (), w1)"
    and "getTransaction B (PeginTxId cfg) w1 = (Ok tx, w2)"
    and "lndConnection B w2 = (Ok (), w3)"
    and "CanRBF L B w3 = (Ok False, w4)"
  shows "(length (OutputDetails tx) = 1 \<longrightarrow>
            BumpPeginFee L B cfg feeRate w =
              (Err ''peg-in transaction has no change output, not possible to CPFP'', w4))
       \<and> (length (OutputDetails tx) \<noteq> 1 \<and>
          (find (\<lambda>output. OutAddress output \<noteq> PeginAddress cfg) (OutputDetails tx) = Some change \<and>
           op = \<lparr>TxidBytes = [], TxidStr = PeginTxId cfg, OutputIndex = ucast (OutIndex change)\<rparr>
           \<or>
           find (\<lambda>output. OutAddress output \<noteq> PeginAddress cfg) (OutputDetails tx) = None \<and>
           op = \<lparr>TxidBytes = [], TxidStr = PeginTxId cfg, OutputIndex = 999\<rparr>) \<longrightarrow>
            BumpPeginFee L B cfg feeRate w =
              (case bumpFee B (trace w4) op feeRate of
                 None \<Rightarrow> (Ok \<lparr>RawHex = [], TxId = PeginTxId cfg, AmountSat = PeginAmount cfg\<rparr>,
                           w4\<lparr>trace := trace w4 @ [Call (BumpFee op feeRate) None]\<rparr>)
               | Some err \<Rightarrow>
                   (Err err, w4\<lparr>trace := trace w4 @ [Call (BumpFee op feeRate) (Some err)]\<rparr>)))"
  using assms
  by (auto simp: BumpPeginFee_def doCPFP_def logCall_def Let_def split: option.splits)

theorem BumpPeginFee_without_RBF_witness:
  "BumpPeginFee plainLibrary sweepBackend peginConfig 25 freshWorld =
     (Err ''peg-in transaction has no change output, not possible to CPFP'',
      \<lparr>trace = [Call Dial None, Call GetTransactions None, Call Dial None, Call Dial None,
                Call GetInfo None], LndVerson = 17 / 100\<rparr>)
   \<and> BumpPeginFee plainLibrary historyBackend peginConfig 25 freshWorld =
     (Ok \<lparr>RawHex = [], TxId = ''aa'', AmountSat = 1000\<rparr>,
      \<lparr>trace = [Call Dial None, Call GetTransactions None, Call Dial None, Call Dial None,
                Call GetInfo None,
                Call (BumpFee \<lparr>TxidBytes = [], TxidStr = ''aa'', OutputIndex = 1\<rparr> 25) None],
       LndVerson = 17 / 100\<rparr>)"
proof -
  let ?w1 = "\<lparr>trace = [Call Dial None], LndVerson = 0\<rparr>"
  let ?w2 = "\<lparr>trace = [Call Dial None, Call GetTransactions None], LndVerson = 0\<rparr>"
  let ?w3 = "\<lparr>trace = [Call Dial None, Call GetTransactions None, Call Dial None],
             LndVerson = 0\<rparr>"
  let ?w4 = "\<lparr>trace = [Call Dial None, Call GetTransactions None, Call Dial None, Call Dial None,
                Call GetInfo None], LndVerson = 17 / 100\<rparr>"
  have s: "GetClient sweepBackend freshWorld = (Ok (), ?w1)"
    "getTransaction sweepBackend (PeginTxId peginConfig) ?w1 = (Ok sweepTx, ?w2)"
    "lndConnection sweepBackend ?w2 = (Ok (), ?w3)"
    "CanRBF plainLibrary sweepBackend ?w3 = (Ok False, ?w4)"
    by (simp_all add: run_defs fixture_defs string_evals)
  have h: "GetClient historyBackend freshWorld = (Ok (), ?w1)"
    "getTransaction historyBackend (PeginTxId peginConfig) ?w1 = (Ok pendingTx, ?w2)"
    "lndConnection historyBackend ?w2 = (Ok (), ?w3)"
    "CanRBF plainLibrary historyBackend ?w3 = (Ok False, ?w4)"
    by (simp_all add: run_defs fixture_defs string_evals)
  from BumpPeginFee_without_RBF [OF s, of 25, THEN conjunct1]
  have 1: "BumpPeginFee plainLibrary sweepBackend peginConfig 25 freshWorld =
     (Err ''peg-in transaction has no change output, not possible to CPFP'', ?w4)"
    by (simp add: sweepTx_def)
  from BumpPeginFee_without_RBF
         [OF h, of 25 "\<lparr>OutAddress = ''change'', OutIndex = 1, OutAmount = 500\<rparr>"
            "\<lparr>TxidBytes = [], TxidStr = ''aa'', OutputIndex = 1\<rparr>", THEN conjunct2]
  have 2: "BumpPeginFee plainLibrary historyBackend peginConfig 25 freshWorld =
     (Ok \<lparr>RawHex = [], TxId = ''aa'', AmountSat = 1000\<rparr>,
      ?w4\<lparr>trace := trace ?w4 @
             [Call (BumpFee \<lparr>TxidBytes = [], TxidStr = ''aa'', OutputIndex = 1\<rparr> 25) None]\<rparr>)"
    by (simp add: fixture_defs)
  from 1 2 show ?thesis by simp
qed

subsection \<open>SendCoinsWithUtxos: the transaction id\<close>

lemma SendCoinsWithUtxos_finalize_Ok:
  assumes "SendCoinsWithUtxos_finalize L B utxos subtract lockId psbtBytes finalAmount w = (Ok res, w')"
  shows "\<exists>rawTx msgTx tr.
           trace w' = tr @ [Call (PublishTransaction rawTx ''Liquid Peg-in'') None] \<and>
           Deserialize L rawTx = Inr msgTx \<and>
           TxId res = TxHashString L msgTx \<and> RawHex res = hexEncode rawTx"
  using assms
  by (auto simp: SendCoinsWithUtxos_finalize_def Let_def logCall_def
      split: sum.splits option.splits prod.splits result.splits if_splits list.splits)

text \<open>
  C1. Whenever \<open>SendCoinsWithUtxos\<close> succeeds, its last exchange is a
  \<open>PublishTransaction\<close> request that the backend accepted; the bytes \<open>rawTx\<close> of that
  request deserialize to a transaction \<open>msgTx\<close>, the \<open>TxId\<close> of the result is the hash of
  \<open>msgTx\<close> computed by the library, and \<open>RawHex\<close> is the hex encoding of \<open>rawTx\<close>. No
  answer of the backend other than these bytes enters the id.
\<close>

theorem SendCoinsWithUtxos_txid_of_published_bytes:
  assumes "SendCoinsWithUtxos L B cfg utxos addr amount feeRate subtract w = (Ok res, w')"
  shows "\<exists>rawTx msgTx tr.
           trace w' = tr @ [Call (PublishTransaction rawTx ''Liquid Peg-in'') None] \<and>
           Deserialize L rawTx = Inr msgTx \<and>
           TxId res = TxHashString L msgTx \<and> RawHex res = hexEncode rawTx"
proof -
  from assms obtain lockId psbtBytes finalAmount w3 where
    "SendCoinsWithUtxos_finalize L B utxos subtract lockId psbtBytes finalAmount w3 = (Ok res, w')"
    unfolding SendCoinsWithUtxos_def
    by (auto simp: Let_def split: prod.splits result.splits if_splits)
  then show ?thesis by (rule SendCoinsWithUtxos_finalize_Ok)
qed


theorem SendCoinsWithUtxos_txid_of_published_bytes_witness:
  "SendCoinsWithUtxos plainLibrary signingBackend peginConfig [''cc:0''] ''pegin'' 1000 5 False
     freshWorld =
     (Ok \<lparr>RawHex = ''dead'', TxId = ''dead'', AmountSat = 1000\<rparr>,
      \<lparr>trace = [Call Dial None,
                Call (FundPsbt \<lparr>Template = Raw [\<lparr>TxidBytes = [], TxidStr = ''cc'', OutputIndex = 0\<rparr>]
                                              [''pegin'' \<mapsto> 1000],
                                SatPerVbyte = 5, MinConfs = 1, SpendUnconfirmed = False,
                                ChangeType = CHANGE_ADDRESS_TYPE_P2TR\<rparr>) None,
                Call (FinalizePsbt []) None,
                Call (PublishTransaction [0xde, 0xad] ''Liquid Peg-in'') None],
       LndVerson = 0\<rparr>)
   \<and> (\<exists>rawTx msgTx tr.
         tr @ [Call (PublishTransaction rawTx ''Liquid Peg-in'') None] =
           [Call Dial None,
            Call (FundPsbt \<lparr>Template = Raw [\<lparr>TxidBytes = [], TxidStr = ''cc'', OutputIndex = 0\<rparr>]
                                          [''pegin'' \<mapsto> 1000],
                            SatPerVbyte = 5, MinConfs = 1, SpendUnconfirmed = False,
                            ChangeType = CHANGE_ADDRESS_TYPE_P2TR\<rparr>) None,
            Call (FinalizePsbt []) None,
            Call (PublishTransaction [0xde, 0xad] ''Liquid Peg-in'') None] \<and>
         Deserialize plainLibrary rawTx = Inr msgTx \<and>
         TxHashString plainLibrary msgTx = ''dead'' \<and> hexEncode rawTx = ''dead'')"
proof -
  have run: "SendCoinsWithUtxos plainLibrary signingBackend peginConfig [''cc:0''] ''pegin'' 1000 5
     False freshWorld =
     (Ok \<lparr>RawHex = ''dead'', TxId = ''dead'', AmountSat = 1000\<rparr>,
      \<lparr>trace = [Call Dial None,
                Call (FundPsbt \<lparr>Template = Raw [\<lparr>TxidBytes = [], TxidStr = ''cc'', OutputIndex = 0\<rparr>]
                                              [''pegin'' \<mapsto> 1000],
                                SatPerVbyte = 5, MinConfs = 1, SpendUnconfirmed = False,
                                ChangeType = CHANGE_ADDRESS_TYPE_P2TR\<rparr>) None,
                Call (FinalizePsbt []) None,
                Call (PublishTransaction [0xde, 0xad] ''Liquid Peg-in'') None],
       LndVerson = 0\<rparr>)"
    by (simp add: SendCoinsWithUtxos_def SendCoinsWithUtxos_finalize_def fundPsbt_def run_defs
        fixture_defs string_evals signingBackend_def hexEncode_def hexDigit_def)
  from SendCoinsWithUtxos_txid_of_published_bytes [OF run] run show ?thesis
    by auto
qed

subsection \<open>fundPsbtSpendAll\<close>

lemma releaseOutputs_events:
  "releaseOutputs B us lockId w = (r, w') \<Longrightarrow>
   \<exists>evs. trace w' = trace w @ evs \<and> LndVerson w' = LndVerson w \<and> list_all isRelease evs"
proof (induction us arbitrary: w)
  case Nil
  then show ?case by auto
next
  case (Cons u us)
  show ?case
  proof (cases "wellFormed u")
    case False
    with Cons.prems show ?thesis
      by (auto simp: wellFormed_def Let_def split: if_splits sum.splits)
  next
    case True
    show ?thesis
    proof (cases "releaseOutput B (trace w) lockId (outpointOf u)")
      case None
      with Cons.prems True have
        "releaseOutputs B us lockId (logCall (ReleaseOutput lockId (outpointOf u)) None w) = (r, w')"
        by (simp add: releaseOutputs_step del: releaseOutputs.simps(2))
      from Cons.IH [OF this] show ?thesis
        by (auto simp: logCall_def isRelease_def)
    next
      case (Some err)
      with Cons.prems True show ?thesis
        by (auto simp: releaseOutputs_step logCall_def isRelease_def simp del: releaseOutputs.simps(2))
    qed
  qed
qed

lemma inner_step:
  "wellFormed u \<Longrightarrow>
   fundPsbtSpendAll_inner B utxo (u # us) txin w =
     (if sameOutpoint utxo u then
        (case NewHash (TxidBytes (Outpoint utxo)) of
           Inl err \<Rightarrow> (Err err, w)
         | Inr hash \<Rightarrow>
             (case leaseOutput B (trace w) myLockId (Outpoint utxo) 10 of
                Some err \<Rightarrow> (Err err, logCall (LeaseOutput myLockId (Outpoint utxo) 10) (Some err) w)
              | None \<Rightarrow>
                  fundPsbtSpendAll_inner B utxo us
                    (txin @ [\<lparr>PreviousOutPoint = \<lparr>Hash = hash, Index = OutputIndex (Outpoint utxo)\<rparr>\<rparr>])
                    (logCall (LeaseOutput myLockId (Outpoint utxo) 10) None w)))
      else fundPsbtSpendAll_inner B utxo us txin w)"
  by (auto simp: wellFormed_def outpointOf_def sameOutpoint_def Let_def split: sum.splits option.splits)

lemma inner_malformed:
  "\<not> wellFormed u \<Longrightarrow> fundPsbtSpendAll_inner B utxo (u # us) txin w = (r, w') \<Longrightarrow>
   r \<noteq> Ok txin' \<and> w' = w"
  by (auto simp: wellFormed_def Let_def split: sum.splits if_splits)

lemma inner_events:
  "fundPsbtSpendAll_inner B utxo us txin w = (r, w') \<Longrightarrow>
   \<exists>evs. trace w' = trace w @ evs \<and> LndVerson w' = LndVerson w \<and> list_all isLease evs \<and>
     ((\<exists>txin'. r = Ok txin') \<longrightarrow>
        set evs \<subseteq> {leased utxo} \<and>
        (\<forall>u\<in>set us. sameOutpoint utxo u \<longrightarrow> leased utxo \<in> set evs))"
proof (induction us arbitrary: txin w)
  case Nil
  then show ?case by auto
next
  case (Cons u us)
  show ?case
  proof (cases "wellFormed u")
    case False
    from inner_malformed [OF False Cons.prems] show ?thesis by auto
  next
    case wf: True
    show ?thesis
    proof (cases "sameOutpoint utxo u")
      case False
      with Cons.prems wf have "fundPsbtSpendAll_inner B utxo us txin w = (r, w')"
        by (simp add: inner_step del: fundPsbtSpendAll_inner.simps(2))
      from Cons.IH [OF this] False show ?thesis by auto
    next
      case same: True
      show ?thesis
      proof (cases "NewHash (TxidBytes (Outpoint utxo))")
        case (Inl err)
        with Cons.prems wf same show ?thesis
          by (auto simp: inner_step simp del: fundPsbtSpendAll_inner.simps(2))
      next
        case (Inr hash)
        show ?thesis
        proof (cases "leaseOutput B (trace w) myLockId (Outpoint utxo) 10")
          case (Some err)
          with Cons.prems wf same Inr show ?thesis
            by (auto simp: inner_step logCall_def isLease_def simp del: fundPsbtSpendAll_inner.simps(2))
        next
          case None
          with Cons.prems wf same Inr have
            "fundPsbtSpendAll_inner B utxo us
               (txin @ [\<lparr>PreviousOutPoint = \<lparr>Hash = hash, Index = OutputIndex (Outpoint utxo)\<rparr>\<rparr>])
               (logCall (LeaseOutput myLockId (Outpoint utxo) 10) None w) = (r, w')"
            by (simp add: inner_step del: fundPsbtSpendAll_inner.simps(2))
          from Cons.IH [OF this] show ?thesis
            by (auto simp: logCall_def isLease_def leased_def)
        qed
      qed
    qed
  qed
qed

lemma outer_events:
  "fundPsbtSpendAll_outer B unspent us txin w = (r, w') \<Longrightarrow>
   \<exists>evs. trace w' = trace w @ evs \<and> LndVerson w' = LndVerson w \<and> list_all isLease evs \<and>
     ((\<exists>txin'. r = Ok txin') \<longrightarrow>
        set evs \<subseteq> leased ` set unspent \<and>
        (\<forall>utxo\<in>set unspent. \<forall>u\<in>set us. sameOutpoint utxo u \<longrightarrow> leased utxo \<in> set evs))"
proof (induction unspent arbitrary: txin w)
  case Nil
  then show ?case by auto
next
  case (Cons utxo rest)
  obtain r1 w1 where i: "fundPsbtSpendAll_inner B utxo us txin w = (r1, w1)"
    by (cases "fundPsbtSpendAll_inner B utxo us txin w")
  from inner_events [OF i] obtain evs1 where
    e1: "trace w1 = trace w @ evs1" "LndVerson w1 = LndVerson w" "list_all isLease evs1"
    and ok1: "(\<exists>txin'. r1 = Ok txin') \<longrightarrow>
        set evs1 \<subseteq> {leased utxo} \<and> (\<forall>u\<in>set us. sameOutpoint utxo u \<longrightarrow> leased utxo \<in> set evs1)"
    by blast
  show ?case
  proof (cases r1)
    case (Ok txin1)
    with Cons.prems i have o: "fundPsbtSpendAll_outer B rest us txin1 w1 = (r, w')" by simp
    from Cons.IH [OF o] obtain evs2 where
      e2: "trace w' = trace w1 @ evs2" "LndVerson w' = LndVerson w1" "list_all isLease evs2"
      and ok2: "(\<exists>txin'. r = Ok txin') \<longrightarrow>
        set evs2 \<subseteq> leased ` set rest \<and>
        (\<forall>utxo\<in>set rest. \<forall>u\<in>set us. sameOutpoint utxo u \<longrightarrow> leased utxo \<in> set evs2)"
      by blast
    from ok1 Ok have ok1': "set evs1 \<subseteq> {leased utxo}"
      "\<forall>u\<in>set us. sameOutpoint utxo u \<longrightarrow> leased utxo \<in> set evs1" by auto
    have "trace w' = trace w @ (evs1 @ evs2)" using e1 e2 by simp
    moreover have "LndVerson w' = LndVerson w" using e1 e2 by simp
    moreover have "list_all isLease (evs1 @ evs2)" using e1 e2 by simp
    moreover have "(\<exists>txin'. r = Ok txin') \<longrightarrow>
        set (evs1 @ evs2) \<subseteq> leased ` set (utxo # rest) \<and>
        (\<forall>x\<in>set (utxo # rest). \<forall>u\<in>set us. sameOutpoint x u \<longrightarrow> leased x \<in> set (evs1 @ evs2))"
      using ok1' ok2 by auto
    ultimately show ?thesis by blast
  next
    case (Err err)
    with Cons.prems i have "r = Err err" "w' = w1" by simp_all
    with e1 show ?thesis by auto
  next
    case Panic
    with Cons.prems i have "r = Panic" "w' = w1" by simp_all
    with e1 show ?thesis by auto
  qed
qed

lemma not_fund_lease: "list_all isLease evs \<Longrightarrow> Call (FundPsbt rq) e \<notin> set evs"
  by (auto simp: list_all_iff isLease_def)

lemma not_fund_release: "list_all isRelease evs \<Longrightarrow> Call (FundPsbt rq) e \<notin> set evs"
  by (auto simp: list_all_iff isRelease_def)

text \<open>
  C3. Whenever a run of \<open>fundPsbtSpendAll\<close> sends a funding request, that request
  carries the \<open>CoinSelect\<close> template with existing output index 0 and the given fee rate,
  and its PSBT is the serialized packet of a version-2 transaction whose output list is
  the single output of value 1 that pays the script of the decoded destination address.
  Before the request, and after the listing of the unspent outputs, the run has only
  sent leases under \<open>myLockId\<close> with an expiration of ten seconds, all accepted, all for
  unspent outputs of the wallet, and among them one for every unspent output that a
  string of the caller names. After the request there are only releases.
\<close>

theorem fundPsbtSpendAll_request:
  assumes run: "fundPsbtSpendAll L B cfg utxoStrings address feeRate w = (r, w')"
    and sent: "Call (FundPsbt rq) e \<in> set (drop (length (trace w)) (trace w'))"
  shows "\<exists>unspent txin parsed pkScript packet leases post.
           listUnspent B (trace w) 1 = Inr unspent \<and>
           DecodeAddress L address
             (if Chain cfg = ''mainnet'' then MainNetParams else TestNet3Params) = Inr parsed \<and>
           PayToAddrScript L parsed = Inr pkScript \<and>
           NewFromUnsignedTx L
             \<lparr>Version = 2, TxIn = txin, TxOut = [\<lparr>PkScript = pkScript, Amount = 1\<rparr>]\<rparr> = Inr packet \<and>
           Template rq = CoinSelect (Serialize L packet) 0 \<and> SatPerVbyte rq = feeRate \<and>
           trace w' = trace w @ Call (ListUnspent 1) None # leases @ Call (FundPsbt rq) e # post \<and>
           set leases \<subseteq> leased ` set unspent \<and>
           (\<forall>utxo\<in>set unspent. \<forall>u\<in>set utxoStrings.
              sameOutpoint utxo u \<longrightarrow> leased utxo \<in> set leases) \<and>
           list_all isRelease post"
proof -
  let ?w0 = "logCall (ListUnspent 1) (errOf (listUnspent B (trace w) 1)) w"
  let ?net = "if Chain cfg = ''mainnet'' then MainNetParams else TestNet3Params"
  show ?thesis
  proof (cases "listUnspent B (trace w) 1")
    case (Inl err)
    with run have "w' = ?w0" by (simp add: fundPsbtSpendAll_def Let_def)
    with sent show ?thesis by (simp add: logCall_def)
  next
    case lu: (Inr unspent)
    obtain r1 w1 where o: "fundPsbtSpendAll_outer B unspent utxoStrings [] ?w0 = (r1, w1)"
      by (cases "fundPsbtSpendAll_outer B unspent utxoStrings [] ?w0")
    from outer_events [OF o] obtain leases where
      l: "trace w1 = trace ?w0 @ leases" "list_all isLease leases"
      and lok: "(\<exists>txin'. r1 = Ok txin') \<longrightarrow>
        set leases \<subseteq> leased ` set unspent \<and>
        (\<forall>utxo\<in>set unspent. \<forall>u\<in>set utxoStrings. sameOutpoint utxo u \<longrightarrow> leased utxo \<in> set leases)"
      by blast
    have t1: "trace w1 = trace w @ Call (ListUnspent 1) None # leases"
      using l lu by (simp add: logCall_def errOf_def)
    have nf: "Call (FundPsbt rq) e \<notin> set (drop (length (trace w)) (trace w1))"
      using t1 not_fund_lease [OF l(2)] by simp
    show ?thesis
    proof (cases r1)
      case (Err err)
      with run lu o have "w' = w1" by (simp add: fundPsbtSpendAll_def Let_def)
      with sent nf show ?thesis by simp
    next
      case Panic
      with run lu o have "w' = w1" by (simp add: fundPsbtSpendAll_def Let_def)
      with sent nf show ?thesis by simp
    next
      case ok: (Ok txin)
      show ?thesis
      proof (cases "DecodeAddress L address ?net")
        case (Inl err)
        with run lu o ok have "w' = w1" by (simp add: fundPsbtSpendAll_def Let_def)
        with sent nf show ?thesis by simp
      next
        case da: (Inr parsed)
        show ?thesis
        proof (cases "PayToAddrScript L parsed")
          case (Inl err)
          with run lu o ok da have "w' = w1" by (simp add: fundPsbtSpendAll_def Let_def)
          with sent nf show ?thesis by simp
        next
          case pk: (Inr pkScript)
          let ?tx = "\<lparr>Version = 2, TxIn = txin, TxOut = [\<lparr>PkScript = pkScript, Amount = 1\<rparr>]\<rparr>"
          show ?thesis
          proof (cases "NewFromUnsignedTx L ?tx")
            case (Inl err)
            with run lu o ok da pk have "w' = w1" by (simp add: fundPsbtSpendAll_def Let_def)
            with sent nf show ?thesis by simp
          next
            case nu: (Inr packet)
            let ?rq = "\<lparr>Template = CoinSelect (Serialize L packet) 0, SatPerVbyte = feeRate,
                         MinConfs = 0, SpendUnconfirmed = False,
                         ChangeType = CHANGE_ADDRESS_TYPE_UNSPECIFIED\<rparr>"
            let ?f = "fundPsbtRpc B (trace w1) ?rq"
            let ?w2 = "logCall (FundPsbt ?rq) (errOf ?f) w1"
            have t2: "trace ?w2 = trace w @ Call (ListUnspent 1) None # leases @ [Call (FundPsbt ?rq) (errOf ?f)]"
              using t1 by (simp add: logCall_def)
            obtain post where
              t': "trace w' = trace w @ Call (ListUnspent 1) None # leases @ Call (FundPsbt ?rq) (errOf ?f) # post"
              and rel: "list_all isRelease post"
            proof (cases ?f)
              case (Inr psbt)
              with run lu o ok da pk nu have "w' = ?w2" by (simp add: fundPsbtSpendAll_def Let_def)
              with t2 that [of "[]"] show ?thesis by simp
            next
              case (Inl err)
              obtain r3 w3 where ro: "releaseOutputs B utxoStrings myLockId ?w2 = (r3, w3)"
                by (cases "releaseOutputs B utxoStrings myLockId ?w2")
              with run lu o ok da pk nu Inl have "w' = w3"
                by (auto simp: fundPsbtSpendAll_def Let_def split: result.splits)
              with releaseOutputs_events [OF ro] t2 that show ?thesis by auto
            qed
            from sent t' not_fund_lease [OF l(2)] not_fund_release [OF rel]
            have "rq = ?rq \<and> e = errOf ?f" by auto
            with t' rel lu da pk nu lok ok show ?thesis by auto
          qed
        qed
      qed
    qed
  qed
qed

lemmas spend_defs = fundPsbtSpendAll_def NewHash_def leased_def run_defs fixture_defs string_evals
  walletBackend_def pickyBackend_def brokeBackend_def coinCC_def coinEE_def

theorem fundPsbtSpendAll_request_witness:
  "fundPsbtSpendAll plainLibrary walletBackend peginConfig [''cc:0''] ''pegin'' 5 freshWorld =
     (Ok [],
      \<lparr>trace = [Call (ListUnspent 1) None, leased coinCC,
                Call (FundPsbt \<lparr>Template = CoinSelect [0, 112, 101, 103, 105, 110] 0,
                                SatPerVbyte = 5, MinConfs = 0, SpendUnconfirmed = False,
                                ChangeType = CHANGE_ADDRESS_TYPE_UNSPECIFIED\<rparr>) None],
       LndVerson = 0\<rparr>)
   \<and> sameOutpoint coinCC ''cc:0''
   \<and> (\<exists>txin packet.
         NewFromUnsignedTx plainLibrary
           \<lparr>Version = 2, TxIn = txin, TxOut = [\<lparr>PkScript = [0, 112, 101, 103, 105, 110], Amount = 1\<rparr>]\<rparr>
           = Inr packet \<and>
         Serialize plainLibrary packet = [0, 112, 101, 103, 105, 110])"
proof -
  let ?rq = "\<lparr>Template = CoinSelect [0, 112, 101, 103, 105, 110] 0,
                                SatPerVbyte = 5, MinConfs = 0, SpendUnconfirmed = False,
                                ChangeType = CHANGE_ADDRESS_TYPE_UNSPECIFIED\<rparr>"
  let ?w' = "\<lparr>trace = [Call (ListUnspent 1) None, leased coinCC, Call (FundPsbt ?rq) None],
       LndVerson = 0\<rparr>"
  have run: "fundPsbtSpendAll plainLibrary walletBackend peginConfig [''cc:0''] ''pegin'' 5 freshWorld
     = (Ok [], ?w')"
    by (simp add: spend_defs)
  have sent: "Call (FundPsbt ?rq) None \<in> set (drop (length (trace freshWorld)) (trace ?w'))"
    by (simp add: freshWorld_def)
  have same: "sameOutpoint coinCC ''cc:0''"
    by (simp add: sameOutpoint_def coinCC_def string_evals)
  from fundPsbtSpendAll_request [OF run sent] obtain txin parsed pkScript packet where
    "DecodeAddress plainLibrary ''pegin''
       (if Chain peginConfig = ''mainnet'' then MainNetParams else TestNet3Params) = Inr parsed"
    "PayToAddrScript plainLibrary parsed = Inr pkScript"
    "NewFromUnsignedTx plainLibrary
       \<lparr>Version = 2, TxIn = txin, TxOut = [\<lparr>PkScript = pkScript, Amount = 1\<rparr>]\<rparr> = Inr packet"
    "Template ?rq = CoinSelect (Serialize plainLibrary packet) 0"
    by blast
  then have "NewFromUnsignedTx plainLibrary
           \<lparr>Version = 2, TxIn = txin, TxOut = [\<lparr>PkScript = [0, 112, 101, 103, 105, 110], Amount = 1\<rparr>]\<rparr>
           = Inr packet \<and>
         Serialize plainLibrary packet = [0, 112, 101, 103, 105, 110]"
    by (auto simp: plainLibrary_def peginConfig_def)
  with run same show ?thesis by blast
qed

text \<open>
  C4. Three runs of \<open>fundPsbtSpendAll\<close> on the wallet with the outputs \<open>cc:0\<close> and \<open>ee:2\<close>,
  both selected. When the lease of \<open>ee:2\<close> is refused, the function returns the error at
  once: the lease of \<open>cc:0\<close> has been accepted, no release follows, and the reservation of
  \<open>cc:0\<close> stands. When the address does not decode, both leases stand. Only when the
  funding request is refused does the function release both outputs.
\<close>

theorem fundPsbtSpendAll_failures_and_leases:
  "fundPsbtSpendAll plainLibrary pickyBackend peginConfig [''cc:0'', ''ee:2''] ''pegin'' 5 freshWorld =
     (Err ''output already locked'',
      \<lparr>trace = [Call (ListUnspent 1) None, leased coinCC,
                Call (LeaseOutput myLockId (Outpoint coinEE) 10) (Some ''output already locked'')],
       LndVerson = 0\<rparr>)
   \<and> held [Call (ListUnspent 1) None, leased coinCC,
            Call (LeaseOutput myLockId (Outpoint coinEE) 10) (Some ''output already locked'')]
       = {(myLockId, ''cc'', 0)}
   \<and> fundPsbtSpendAll plainLibrary walletBackend peginConfig [''cc:0'', ''ee:2''] [] 5 freshWorld =
     (Err ''decoded address is of unknown format'',
      \<lparr>trace = [Call (ListUnspent 1) None, leased coinCC, leased coinEE], LndVerson = 0\<rparr>)
   \<and> held [Call (ListUnspent 1) None, leased coinCC, leased coinEE]
       = {(myLockId, ''cc'', 0), (myLockId, ''ee'', 2)}
   \<and> fundPsbtSpendAll plainLibrary brokeBackend peginConfig [''cc:0'', ''ee:2''] ''pegin'' 5 freshWorld =
     (Err ''insufficient funds'',
      \<lparr>trace = [Call (ListUnspent 1) None, leased coinCC, leased coinEE,
                Call (FundPsbt \<lparr>Template = CoinSelect [0, 112, 101, 103, 105, 110] 0,
                                SatPerVbyte = 5, MinConfs = 0, SpendUnconfirmed = False,
                                ChangeType = CHANGE_ADDRESS_TYPE_UNSPECIFIED\<rparr>)
                  (Some ''insufficient funds''),
                released myLockId ''cc:0'', released myLockId ''ee:2''],
       LndVerson = 0\<rparr>)
   \<and> held [Call (ListUnspent 1) None, leased coinCC, leased coinEE,
            Call (FundPsbt \<lparr>Template = CoinSelect [0, 112, 101, 103, 105, 110] 0,
                            SatPerVbyte = 5, MinConfs = 0, SpendUnconfirmed = False,
                            ChangeType = CHANGE_ADDRESS_TYPE_UNSPECIFIED\<rparr>)
              (Some ''insufficient funds''),
            released myLockId ''cc:0'', released myLockId ''ee:2'']
       = {}"
proof (intro conjI)
  show "fundPsbtSpendAll plainLibrary pickyBackend peginConfig [''cc:0'', ''ee:2''] ''pegin'' 5 freshWorld =
     (Err ''output already locked'',
      \<lparr>trace = [Call (ListUnspent 1) None, leased coinCC,
                Call (LeaseOutput myLockId (Outpoint coinEE) 10) (Some ''output already locked'')],
       LndVerson = 0\<rparr>)"
    by (simp add: spend_defs)
  show "fundPsbtSpendAll plainLibrary walletBackend peginConfig [''cc:0'', ''ee:2''] [] 5 freshWorld =
     (Err ''decoded address is of unknown format'',
      \<lparr>trace = [Call (ListUnspent 1) None, leased coinCC, leased coinEE], LndVerson = 0\<rparr>)"
    by (simp add: spend_defs)
  show "fundPsbtSpendAll plainLibrary brokeBackend peginConfig [''cc:0'', ''ee:2''] ''pegin'' 5 freshWorld =
     (Err ''insufficient funds'',
      \<lparr>trace = [Call (ListUnspent 1) None, leased coinCC, leased coinEE,
                Call (FundPsbt \<lparr>Template = CoinSelect [0, 112, 101, 103, 105, 110] 0,
                                SatPerVbyte = 5, MinConfs = 0, SpendUnconfirmed = False,
                                ChangeType = CHANGE_ADDRESS_TYPE_UNSPECIFIED\<rparr>)
                  (Some ''insufficient funds''),
                released myLockId ''cc:0'', released myLockId ''ee:2''],
       LndVerson = 0\<rparr>)"
    by (simp add: spend_defs released_def)
qed (auto simp: held_def leased_def released_def coinCC_def coinEE_def string_evals)

subsection \<open>SendCoinsWithUtxos: the fee-subtraction loop\<close>

declare SendCoinsWithUtxos_loop.simps [simp del]

lemma fundings_append: "fundings (a @ b) = fundings a @ fundings b"
  by (induction a rule: fundings.induct) auto

lemma fundings_releases: "list_all isRelease evs \<Longrightarrow> fundings evs = []"
  by (induction evs rule: fundings.induct) (auto simp: isRelease_def)

lemma isRelease_released: "list_all isRelease (map (released lockId) us)"
  by (induction us) (auto simp: isRelease_def released_def)

lemma releaseOutputs_no_panic:
  "list_all wellFormed us \<Longrightarrow> fst (releaseOutputs B us lockId w) \<noteq> Panic"
proof (induction us arbitrary: w)
  case Nil
  then show ?case by simp
next
  case (Cons u us)
  then show ?case
    by (auto simp: releaseOutputs_step simp del: releaseOutputs.simps(2) split: option.splits)
qed

lemma fundPsbt_inputs_wf:
  "list_all wellFormed utxos \<Longrightarrow> fundPsbt_inputs utxos = Ok (map outpointOf utxos)"
  by (induction utxos) (auto simp: wellFormed_def outpointOf_def Let_def split: sum.splits)

lemma fundPsbt_inputs_Ok:
  "fundPsbt_inputs utxos = Ok inputs \<Longrightarrow> list_all wellFormed utxos"
  by (induction utxos arbitrary: inputs)
     (auto simp: wellFormed_def Let_def split: sum.splits if_splits result.splits)

lemma fundPsbt_Ok_wf:
  "fundPsbt B utxos outputs feeRate w0 = (Ok psbt, w) \<Longrightarrow> list_all wellFormed utxos"
  by (auto simp: fundPsbt_def Let_def split: result.splits sum.splits dest: fundPsbt_inputs_Ok)

lemma fundPsbt_wf:
  "list_all wellFormed utxos \<Longrightarrow>
   fundPsbt B utxos outputs feeRate w =
     (let rq = \<lparr>Template = Raw (map outpointOf utxos) outputs, SatPerVbyte = feeRate, MinConfs = 1,
                 SpendUnconfirmed = False, ChangeType = CHANGE_ADDRESS_TYPE_P2TR\<rparr>
      in case fundPsbtRpc B (trace w) rq of
           Inl err \<Rightarrow> (Err err, logCall (FundPsbt rq) (Some err) w)
         | Inr psbt \<Rightarrow> (Ok psbt, logCall (FundPsbt rq) None w))"
  by (simp add: fundPsbt_def fundPsbt_inputs_wf Let_def errOf_def split: sum.splits)

lemma held_append: "held (a @ b) = foldl lockStep (held a) b"
  by (simp add: held_def)

lemma foldl_lockStep_released:
  "foldl lockStep S (map (released lockId) us) = S - lockOf lockId ` set us"
  by (induction us arbitrary: S) (auto simp: released_def lockOf_def)

lemma foldl_lockStep_releases:
  "list_all isRelease evs \<Longrightarrow> foldl lockStep S evs \<subseteq> S"
proof (induction evs arbitrary: S)
  case Nil
  then show ?case by simp
next
  case (Cons ev evs)
  from Cons.prems have "lockStep S ev \<subseteq> S"
    by (cases "(S, ev)" rule: lockStep.cases) (auto simp: isRelease_def)
  moreover from Cons have "foldl lockStep (lockStep S ev) evs \<subseteq> lockStep S ev" by simp
  ultimately show ?case by auto
qed

lemma attempt_upd:
  "attempt utxos (outputs(addr \<mapsto> v)) addr amount fee feeRate h =
   attempt utxos outputs addr amount fee feeRate h"
  by (simp add: attempt_def)

lemma loop_exit:
  "\<not> haircut \<le> 2000 \<Longrightarrow>
   SendCoinsWithUtxos_loop B utxos addr amount fee feeRate lockId outputs psbtBytes err finalAmount
     haircut w = (Ok (psbtBytes, err, finalAmount), w)"
  by (subst SendCoinsWithUtxos_loop.simps) simp

lemma loop_step:
  assumes wf: "list_all wellFormed utxos" and le: "haircut \<le> 2000"
  shows "SendCoinsWithUtxos_loop B utxos addr amount fee feeRate lockId outputs psbtBytes err
           finalAmount haircut w =
     (case releaseOutputs B utxos lockId w of
        (Panic, w1) \<Rightarrow> (Panic, w1)
      | (Err e, w1) \<Rightarrow> (Err e, w1)
      | (Ok _, w1) \<Rightarrow>
          (case fundPsbtRpc B (trace w1) (attempt utxos outputs addr amount fee feeRate haircut) of
             Inr psbt \<Rightarrow>
               (Ok (psbt, None,
                    if amount - fee - word_of_int haircut <s 0 then 0
                    else amount - fee - word_of_int haircut),
                logCall (FundPsbt (attempt utxos outputs addr amount fee feeRate haircut)) None w1)
           | Inl e \<Rightarrow>
               SendCoinsWithUtxos_loop B utxos addr amount fee feeRate lockId
                 (outputs(addr \<mapsto> (if amount - fee - word_of_int haircut <s 0 then 0
                                     else amount - fee - word_of_int haircut)))
                 [] (Some e)
                 (if amount - fee - word_of_int haircut <s 0 then 0
                  else amount - fee - word_of_int haircut)
                 (haircut + 5)
                 (logCall (FundPsbt (attempt utxos outputs addr amount fee feeRate haircut))
                    (Some e) w1)))"
  apply (subst SendCoinsWithUtxos_loop.simps)
  apply (simp only: le if_True)
  apply (simp add: fundPsbt_wf [OF wf] attempt_def Let_def
      split: prod.splits result.splits sum.splits)
  done

lemma loop_outcome:
  assumes wf: "list_all wellFormed utxos"
  shows "haircut = 5 * int i \<Longrightarrow> i \<le> 400 \<Longrightarrow>
     SendCoinsWithUtxos_loop B utxos addr amount fee feeRate lockId outputs psbtBytes err finalAmount
       haircut w = (r, w') \<Longrightarrow>
     \<exists>evs n. trace w' = trace w @ evs \<and> LndVerson w' = LndVerson w \<and> i + n \<le> 401 \<and>
        map fst (fundings evs) =
          map (\<lambda>k. attempt utxos outputs addr amount fee feeRate (5 * int k)) [i..<i + n] \<and>
        (\<forall>p fa. r = Ok (p, None, fa) \<longrightarrow> 0 < n \<and> snd (last (fundings evs)) = None) \<and>
        (\<forall>p e fa. r = Ok (p, Some e, fa) \<longrightarrow>
           i + n = 401 \<and> None \<notin> snd ` set (fundings evs) \<and> snd (last (fundings evs)) = Some e \<and>
           lockOf lockId ` set utxos \<inter> held (trace w') = {}) \<and>
        (\<forall>e. r = Err e \<longrightarrow> i + n < 401 \<and> None \<notin> snd ` set (fundings evs)) \<and>
        r \<noteq> Panic"
proof (induction "400 - i" arbitrary: i haircut outputs psbtBytes err finalAmount w rule: less_induct)
  case less
  note step = less.prems
  have le: "haircut \<le> 2000" using step by simp
  obtain rr w1 where rel: "releaseOutputs B utxos lockId w = (rr, w1)"
    by (cases "releaseOutputs B utxos lockId w")
  from releaseOutputs_no_panic [OF wf, of B lockId w] rel have np: "rr \<noteq> Panic" by simp
  from releaseOutputs_events [OF rel] obtain revs where
    revs: "trace w1 = trace w @ revs" "LndVerson w1 = LndVerson w" "list_all isRelease revs" by blast
  let ?v = "if amount - fee - word_of_int haircut <s 0 then 0 else amount - fee - word_of_int haircut"
  let ?outs = "outputs(addr \<mapsto> ?v)"
  let ?rq = "attempt utxos outputs addr amount fee feeRate haircut"
  note unf = loop_step [OF wf le, of B addr amount fee feeRate lockId outputs psbtBytes err finalAmount w]
  show ?case
  proof (cases rr)
    case Panic
    with np show ?thesis by simp
  next
    case (Err e)
    with step(3) rel unf have "r = Err e" "w' = w1" by simp_all
    with revs step(2) show ?thesis
      by (intro exI [of _ revs] exI [of _ 0]) (simp add: fundings_releases)
  next
    case (Ok u)
    with rel releaseOutputs_trace [OF wf, of B lockId w w1]
    have t1: "trace w1 = trace w @ map (released lockId) utxos" by simp
    show ?thesis
    proof (cases "fundPsbtRpc B (trace w1) ?rq")
      case (Inr psbt)
      with step(3) rel Ok unf have "r = Ok (psbt, None, ?v)" "w' = logCall (FundPsbt ?rq) None w1"
        by simp_all
      with t1 revs step(1,2) show ?thesis
        by (intro exI [of _ "map (released lockId) utxos @ [Call (FundPsbt ?rq) None]"] exI [of _ 1])
           (simp add: logCall_def fundings_append fundings_releases isRelease_released)
    next
      case (Inl e)
      let ?w2 = "logCall (FundPsbt ?rq) (Some e) w1"
      let ?pre = "map (released lockId) utxos @ [Call (FundPsbt ?rq) (Some e)]"
      from step(3) rel Ok unf Inl have rec:
        "SendCoinsWithUtxos_loop B utxos addr amount fee feeRate lockId ?outs [] (Some e) ?v
           (haircut + 5) ?w2 = (r, w')"
        by simp
      have fpre: "fundings ?pre = [(?rq, Some e)]"
        by (simp add: fundings_append fundings_releases isRelease_released)
      show ?thesis
      proof (cases "i = 400")
        case True
        then have "\<not> haircut + 5 \<le> 2000" using step by simp
        with rec have r: "r = Ok ([], Some e, ?v)" "w' = ?w2"
          by (simp_all add: loop_exit)
        have h: "lockOf lockId ` set utxos \<inter> held (trace ?w2) = {}"
          by (auto simp: logCall_def t1 held_append foldl_lockStep_released)
        from r t1 revs step(1) True h fpre show ?thesis
          by (intro exI [of _ ?pre] exI [of _ 1]) (simp add: logCall_def)
      next
        case False
        with step(2) have i: "i < 400" by simp
        have h5: "haircut + 5 = 5 * int (Suc i)" using step(1) by simp
        have si: "Suc i \<le> 400" "400 - Suc i < 400 - i" using i by simp_all
        from less.hyps [OF si(2) h5 si(1) rec] obtain evs2 n2 where
          a: "trace w' = trace ?w2 @ evs2" "LndVerson w' = LndVerson ?w2" "Suc i + n2 \<le> 401"
          and b: "map fst (fundings evs2) =
            map (\<lambda>k. attempt utxos ?outs addr amount fee feeRate (5 * int k)) [Suc i..<Suc i + n2]"
          and c1: "\<forall>p fa. r = Ok (p, None, fa) \<longrightarrow> 0 < n2 \<and> snd (last (fundings evs2)) = None"
          and c2: "\<forall>p e fa. r = Ok (p, Some e, fa) \<longrightarrow>
             Suc i + n2 = 401 \<and> None \<notin> snd ` set (fundings evs2) \<and>
             snd (last (fundings evs2)) = Some e \<and>
             lockOf lockId ` set utxos \<inter> held (trace w') = {}"
          and c3: "\<forall>e. r = Err e \<longrightarrow> Suc i + n2 < 401 \<and> None \<notin> snd ` set (fundings evs2)"
          and c4: "r \<noteq> Panic"
          by blast
        have tr: "trace w' = trace w @ (?pre @ evs2)"
          using a(1) t1 by (simp add: logCall_def)
        have lv: "LndVerson w' = LndVerson w"
          using a(2) revs(2) by (simp add: logCall_def)
        have fs: "fundings (?pre @ evs2) = (?rq, Some e) # fundings evs2"
          using fpre by (simp add: fundings_append)
        have up: "[i..<i + Suc n2] = i # [Suc i..<Suc i + n2]"
          by (simp add: upt_conv_Cons)
        have m: "map fst (fundings (?pre @ evs2)) =
            map (\<lambda>k. attempt utxos outputs addr amount fee feeRate (5 * int k)) [i..<i + Suc n2]"
          unfolding fs up using b step(1) by (simp add: attempt_upd)
        have ne: "0 < n2 \<Longrightarrow> fundings evs2 \<noteq> []"
        proof
          assume "0 < n2" "fundings evs2 = []"
          with b show False by simp
        qed
        have d1: "\<forall>p fa. r = Ok (p, None, fa) \<longrightarrow>
                    0 < Suc n2 \<and> snd (last (fundings (?pre @ evs2))) = None"
          using c1 ne unfolding fs by auto
        have d2: "\<forall>p e' fa. r = Ok (p, Some e', fa) \<longrightarrow>
             i + Suc n2 = 401 \<and> None \<notin> snd ` set (fundings (?pre @ evs2)) \<and>
             snd (last (fundings (?pre @ evs2))) = Some e' \<and>
             lockOf lockId ` set utxos \<inter> held (trace w') = {}"
        proof (intro allI impI)
          fix p e' fa
          assume r: "r = Ok (p, Some e', fa)"
          with c2 have x: "Suc i + n2 = 401" "None \<notin> snd ` set (fundings evs2)"
            "snd (last (fundings evs2)) = Some e'"
            "lockOf lockId ` set utxos \<inter> held (trace w') = {}" by blast+
          from x(1) i have "0 < n2" by simp
          from ne [OF this] x show "i + Suc n2 = 401 \<and> None \<notin> snd ` set (fundings (?pre @ evs2)) \<and>
             snd (last (fundings (?pre @ evs2))) = Some e' \<and>
             lockOf lockId ` set utxos \<inter> held (trace w') = {}"
            unfolding fs by auto
        qed
        have d3: "\<forall>e'. r = Err e' \<longrightarrow> i + Suc n2 < 401 \<and> None \<notin> snd ` set (fundings (?pre @ evs2))"
          using c3 unfolding fs by auto
        have "i + Suc n2 \<le> 401" using a(3) by simp
        with tr lv m d1 d2 d3 c4 show ?thesis by blast
      qed
    qed
  qed
qed

lemma haircuts_facts:
  "length haircuts = 401 \<and> haircuts ! 0 = 0 \<and> (\<forall>k<400. haircuts ! Suc k = haircuts ! k + 5) \<and>
   (\<forall>h\<in>set haircuts. 0 \<le> h \<and> h \<le> 2000)"
  by (auto simp: haircuts_def)

lemma take_haircuts: "n \<le> 401 \<Longrightarrow> map f (take n haircuts) = map (\<lambda>k. f (5 * int k)) [0..<n]"
  by (simp add: haircuts_def take_map comp_def min_def)

text \<open>
  C2. The block of lines 249-281 is entered after a first funding that succeeded and
  whose fee could be read. The funding requests the block sends are, in this order, the
  requests for the first \<open>n\<close> haircuts of the list \<open>haircuts\<close>, for some \<open>n\<close> up to 401;
  that list starts at 0, grows by 5 from one entry to the next, has 401 entries and stays
  within 0 and 2000. When none of the requests sent was accepted, the block returns an
  error. When all 401 were sent and none was accepted, the error is the one of the last
  attempt, and none of the caller's outpoints is left reserved under the lock id.
  (Termination: the loop is a total function, and no run sends more than 401 requests.)
\<close>

theorem fee_subtraction_loop:
  assumes first: "fundPsbt B utxos outputs feeRate w0 = (Ok psbtBytes, w)"
    and fee: "GetFeeFromPsbt L psbtBytes = Inr fee"
    and run: "SendCoinsWithUtxos_subtractFee L B utxos addr amount feeRate lockId outputs psbtBytes w
                = (r, w')"
    and new: "attempts = fundings (drop (length (trace w)) (trace w'))"
  shows "length haircuts = 401 \<and> haircuts ! 0 = 0 \<and>
         (\<forall>k<400. haircuts ! Suc k = haircuts ! k + 5) \<and>
         (\<forall>h\<in>set haircuts. 0 \<le> h \<and> h \<le> 2000) \<and>
         (\<exists>n\<le>401. map fst attempts =
            map (attempt utxos outputs addr amount (toSats L fee) feeRate) (take n haircuts)) \<and>
         (None \<notin> snd ` set attempts \<longrightarrow> (\<exists>e. r = Err e)) \<and>
         (length attempts = 401 \<and> None \<notin> snd ` set attempts \<longrightarrow>
            r = Err (the (snd (last attempts))) \<and>
            lockOf lockId ` set utxos \<inter> held (trace w') = {})"
proof -
  from first have wf: "list_all wellFormed utxos" by (rule fundPsbt_Ok_wf)
  obtain rl wl where loop:
    "SendCoinsWithUtxos_loop B utxos addr amount (toSats L fee) feeRate lockId outputs psbtBytes None
       amount 0 w = (rl, wl)"
    by (cases "SendCoinsWithUtxos_loop B utxos addr amount (toSats L fee) feeRate lockId outputs
                 psbtBytes None amount 0 w")
  have h0: "(0::int) = 5 * int 0" and i0: "(0::nat) \<le> 400" by simp_all
  from loop_outcome [OF wf h0 i0 loop] obtain evs n where
    a0: "trace wl = trace w @ evs" "0 + n \<le> 401"
    and b0: "map fst (fundings evs) =
          map (\<lambda>k. attempt utxos outputs addr amount (toSats L fee) feeRate (5 * int k)) [0..<0 + n]"
    and c10: "\<forall>p fa. rl = Ok (p, None, fa) \<longrightarrow> 0 < n \<and> snd (last (fundings evs)) = None"
    and c20: "\<forall>p e fa. rl = Ok (p, Some e, fa) \<longrightarrow>
           0 + n = 401 \<and> None \<notin> snd ` set (fundings evs) \<and> snd (last (fundings evs)) = Some e \<and>
           lockOf lockId ` set utxos \<inter> held (trace wl) = {}"
    and c30: "\<forall>e. rl = Err e \<longrightarrow> 0 + n < 401 \<and> None \<notin> snd ` set (fundings evs)"
    and c4: "rl \<noteq> Panic"
    by blast
  from a0 have a: "trace wl = trace w @ evs" "n \<le> 401" by simp_all
  from b0 have b: "map fst (fundings evs) =
          map (\<lambda>k. attempt utxos outputs addr amount (toSats L fee) feeRate (5 * int k)) [0..<n]"
    by simp
  note c1 = c10
  from c20 have c2: "\<forall>p e fa. rl = Ok (p, Some e, fa) \<longrightarrow>
           n = 401 \<and> None \<notin> snd ` set (fundings evs) \<and> snd (last (fundings evs)) = Some e \<and>
           lockOf lockId ` set utxos \<inter> held (trace wl) = {}" by simp
  from c30 have c3: "\<forall>e. rl = Err e \<longrightarrow> n < 401 \<and> None \<notin> snd ` set (fundings evs)" by simp
  have len: "length (fundings evs) = n"
    using arg_cong [OF b, of length] by simp
  have seq: "map fst (fundings evs) =
               map (attempt utxos outputs addr amount (toSats L fee) feeRate) (take n haircuts)"
    using b a(2) by (simp add: take_haircuts)
  have ex: "\<exists>n\<le>401. map fst (fundings evs) =
               map (attempt utxos outputs addr amount (toSats L fee) feeRate) (take n haircuts)"
    using seq a(2) by blast
  have main: "(\<exists>n\<le>401. map fst attempts =
            map (attempt utxos outputs addr amount (toSats L fee) feeRate) (take n haircuts)) \<and>
         (None \<notin> snd ` set attempts \<longrightarrow> (\<exists>e. r = Err e)) \<and>
         (length attempts = 401 \<and> None \<notin> snd ` set attempts \<longrightarrow>
            r = Err (the (snd (last attempts))) \<and>
            lockOf lockId ` set utxos \<inter> held (trace w') = {})"
  proof (cases rl)
    case Panic
    with c4 show ?thesis by simp
  next
    case (Err e)
    with run fee loop have r: "r = Err e" "w' = wl"
      by (simp_all add: SendCoinsWithUtxos_subtractFee_def)
    with new a have at: "attempts = fundings evs" by simp
    from c3 Err have "n < 401" by simp
    with at ex r len show ?thesis by auto
  next
    case (Ok x)
    obtain p oe fa where x: "x = (p, oe, fa)" by (cases x)
    show ?thesis
    proof (cases oe)
      case None
      with run fee loop Ok x have r: "r = Ok (p, fa)" "w' = wl"
        by (simp_all add: SendCoinsWithUtxos_subtractFee_def)
      with new a have at: "attempts = fundings evs" by simp
      from c1 Ok x None have l: "0 < n" "snd (last (fundings evs)) = None" by auto
      from l(1) len have "fundings evs \<noteq> []" by auto
      with l(2) have "None \<in> snd ` set (fundings evs)"
        by (metis image_eqI last_in_set)
      with at ex show ?thesis by auto
    next
      case (Some e)
      from c2 Ok x Some have l: "n = 401" "None \<notin> snd ` set (fundings evs)"
        "snd (last (fundings evs)) = Some e" "lockOf lockId ` set utxos \<inter> held (trace wl) = {}"
        by auto
      obtain rr w2 where rel: "releaseOutputs B utxos lockId wl = (rr, w2)"
        by (cases "releaseOutputs B utxos lockId wl")
      from releaseOutputs_no_panic [OF wf, of B lockId wl] rel have "rr \<noteq> Panic" by simp
      with run fee loop Ok x Some rel have r: "r = Err e" "w' = w2"
        by (auto simp: SendCoinsWithUtxos_subtractFee_def split: result.splits)
      from releaseOutputs_events [OF rel] obtain revs where
        revs: "trace w2 = trace wl @ revs" "list_all isRelease revs" by blast
      with new a r have at: "attempts = fundings evs"
        by (simp add: fundings_append fundings_releases)
      have "held (trace w') \<subseteq> held (trace wl)"
        using r revs by (simp add: held_append foldl_lockStep_releases)
      with l(4) have "lockOf lockId ` set utxos \<inter> held (trace w') = {}" by blast
      with at ex r l len show ?thesis by auto
    qed
  qed
  with haircuts_facts show ?thesis by blast
qed

lemma stingy_release:
  "releaseOutputs stingyBackend [''cc:0''] lockId w =
     (Ok (), logCall (ReleaseOutput lockId (outpointOf ''cc:0'')) None w)"
  by (simp add: stingyBackend_def quietBackend_def string_evals Let_def)

lemma stingy_loop:
  "haircut = 5 * int i \<Longrightarrow> i \<le> 400 \<Longrightarrow>
   \<exists>fa w'. SendCoinsWithUtxos_loop stingyBackend [''cc:0''] addr amount fee feeRate lockId outputs
              psbtBytes err finalAmount haircut w = (Ok ([], Some ''fee too low'', fa), w')"
proof (induction "400 - i" arbitrary: i haircut outputs psbtBytes err finalAmount w rule: less_induct)
  case less
  have wf: "list_all wellFormed [''cc:0'']" by (simp add: string_evals)
  have le: "haircut \<le> 2000" using less.prems by simp
  let ?w1 = "logCall (ReleaseOutput lockId (outpointOf ''cc:0'')) None w"
  let ?rq = "attempt [''cc:0''] outputs addr amount fee feeRate haircut"
  have refuse: "fundPsbtRpc stingyBackend (trace ?w1) ?rq = Inl ''fee too low''"
    by (simp add: stingyBackend_def quietBackend_def logCall_def)
  note unf = loop_step [OF wf le, of stingyBackend addr amount fee feeRate lockId outputs psbtBytes
      err finalAmount w, unfolded stingy_release, simplified, unfolded refuse, simplified]
  show ?case
  proof (cases "i = 400")
    case True
    then have "\<not> haircut + 5 \<le> 2000" using less.prems by simp
    then show ?thesis unfolding unf by (simp add: loop_exit)
  next
    case False
    with less.prems have "400 - Suc i < 400 - i" "haircut + 5 = 5 * int (Suc i)" "Suc i \<le> 400"
      by simp_all
    from less.hyps [OF this] show ?thesis unfolding unf by blast
  qed
qed

lemma cc0_wellFormed: "list_all wellFormed [''cc:0'']" by (simp add: string_evals)

lemma stingy_first: "fundPsbt stingyBackend [''cc:0''] Map.empty 5 \<lparr>trace = [], LndVerson = 17 / 100\<rparr>
                 = (Ok [], fundedWorld)"
    by (simp add: fundPsbt_wf [OF cc0_wellFormed] stingyBackend_def quietBackend_def fundedWorld_def
        logCall_def)

lemma plain_fee: "GetFeeFromPsbt plainLibrary [] = Inr (3 / 2000000)"
    by (simp add: plainLibrary_def)


lemma stingy_loop0:
  "\<exists>fa wl. SendCoinsWithUtxos_loop stingyBackend [''cc:0''] ''pegin'' 1000 (toSats plainLibrary (3 / 2000000))
       5 internalLockId Map.empty [] None 1000 0 fundedWorld = (Ok ([], Some ''fee too low'', fa), wl)"
  by (rule stingy_loop [where i = 0]) simp_all

lemma loop_exhausted:
  assumes wf: "list_all wellFormed utxos"
    and loop: "SendCoinsWithUtxos_loop B utxos addr amount fee feeRate lockId outputs psbtBytes err
                 finalAmount 0 w = (Ok (p, Some e, fa), wl)"
  shows "\<exists>evs. trace wl = trace w @ evs \<and> length (fundings evs) = 401 \<and>
               None \<notin> snd ` set (fundings evs)"
proof -
  have h0: "(0::int) = 5 * int 0" and i0: "(0::nat) \<le> 400" by simp_all
  from loop_outcome [OF wf h0 i0 loop] obtain evs n where
    a: "trace wl = trace w @ evs"
    and b: "map fst (fundings evs) =
          map (\<lambda>k. attempt utxos outputs addr amount fee feeRate (5 * int k)) [0..<0 + n]"
    and c: "\<forall>p' e' fa'. Ok (p, Some e, fa) = Ok (p', Some e', fa') \<longrightarrow>
           0 + n = 401 \<and> None \<notin> snd ` set (fundings evs) \<and> snd (last (fundings evs)) = Some e' \<and>
           lockOf lockId ` set utxos \<inter> held (trace wl) = {}"
    by (elim exE conjE) (rule that)
  from c have c': "n = 401" "None \<notin> snd ` set (fundings evs)" by simp_all
  have "length (map fst (fundings evs)) = n" unfolding b by simp
  with c'(1) have "length (fundings evs) = 401" by simp
  with a c'(2) show ?thesis by (intro exI conjI)
qed

lemma stingy_block:
  "\<exists>wl evs. SendCoinsWithUtxos_subtractFee plainLibrary stingyBackend [''cc:0''] ''pegin''
                1000 5 internalLockId Map.empty [] fundedWorld =
              (Err ''fee too low'', logCall (ReleaseOutput internalLockId (outpointOf ''cc:0'')) None wl)
     \<and> trace wl = trace fundedWorld @ evs \<and> length (fundings evs) = 401
     \<and> None \<notin> snd ` set (fundings evs)"
proof -
  from stingy_loop0 obtain fa wl where loop:
    "SendCoinsWithUtxos_loop stingyBackend [''cc:0''] ''pegin'' 1000 (toSats plainLibrary (3 / 2000000))
       5 internalLockId Map.empty [] None 1000 0 fundedWorld = (Ok ([], Some ''fee too low'', fa), wl)"
    by (elim exE)
  from loop_exhausted [OF cc0_wellFormed loop] obtain evs where
    a: "trace wl = trace fundedWorld @ evs \<and> length (fundings evs) = 401 \<and>
        None \<notin> snd ` set (fundings evs)"
    by (elim exE)
  have res: "SendCoinsWithUtxos_subtractFee plainLibrary stingyBackend [''cc:0''] ''pegin''
                1000 5 internalLockId Map.empty [] fundedWorld =
              (Err ''fee too low'', logCall (ReleaseOutput internalLockId (outpointOf ''cc:0'')) None wl)"
    unfolding SendCoinsWithUtxos_subtractFee_def plain_fee sum.case loop stingy_release
    by (simp only: prod.case result.case option.case)
  show ?thesis
    apply (rule exI [of _ wl])
    apply (rule exI [of _ evs])
    apply (rule conjI [OF res a])
    done
qed

theorem fee_subtraction_loop_witness:
  "fundPsbt stingyBackend [''cc:0''] Map.empty 5 \<lparr>trace = [], LndVerson = 17 / 100\<rparr> = (Ok [], fundedWorld)
   \<and> GetFeeFromPsbt plainLibrary [] = Inr (3 / 2000000)
   \<and> length (fundings (drop (length (trace fundedWorld))
        (trace (snd (SendCoinsWithUtxos_subtractFee plainLibrary stingyBackend [''cc:0''] ''pegin''
                       1000 5 internalLockId Map.empty [] fundedWorld))))) = 401
   \<and> None \<notin> snd ` set (fundings (drop (length (trace fundedWorld))
        (trace (snd (SendCoinsWithUtxos_subtractFee plainLibrary stingyBackend [''cc:0''] ''pegin''
                       1000 5 internalLockId Map.empty [] fundedWorld)))))
   \<and> fst (SendCoinsWithUtxos_subtractFee plainLibrary stingyBackend [''cc:0''] ''pegin''
            1000 5 internalLockId Map.empty [] fundedWorld) = Err ''fee too low''
   \<and> lockOf internalLockId ` set [''cc:0''] \<inter>
       held (trace (snd (SendCoinsWithUtxos_subtractFee plainLibrary stingyBackend [''cc:0''] ''pegin''
                           1000 5 internalLockId Map.empty [] fundedWorld))) = {}"
proof -
  obtain r w' where run:
    "SendCoinsWithUtxos_subtractFee plainLibrary stingyBackend [''cc:0''] ''pegin''
       1000 5 internalLockId Map.empty [] fundedWorld = (r, w')"
    by (rule prod.exhaust)
  define attempts where "attempts = fundings (drop (length (trace fundedWorld)) (trace w'))"
  from stingy_block obtain wl evs where
    res: "SendCoinsWithUtxos_subtractFee plainLibrary stingyBackend [''cc:0''] ''pegin''
            1000 5 internalLockId Map.empty [] fundedWorld =
          (Err ''fee too low'', logCall (ReleaseOutput internalLockId (outpointOf ''cc:0'')) None wl)"
    and a: "trace wl = trace fundedWorld @ evs"
    and len: "length (fundings evs) = 401"
    and none: "None \<notin> snd ` set (fundings evs)"
    by (elim exE conjE)
  from run res have r: "r = Err ''fee too low''"
    and w': "w' = logCall (ReleaseOutput internalLockId (outpointOf ''cc:0'')) None wl"
    by simp_all
  have tr: "trace w' =
            trace fundedWorld @ evs @ [Call (ReleaseOutput internalLockId (outpointOf ''cc:0'')) None]"
    unfolding w' by (simp add: logCall_def a)
  have at: "attempts = fundings evs"
    unfolding attempts_def tr by (simp add: fundings_append)
  have h1: "length attempts = 401" and h2: "None \<notin> snd ` set attempts"
    unfolding at by (rule len, rule none)
  from fee_subtraction_loop [OF stingy_first plain_fee run attempts_def]
  have "length attempts = 401 \<and> None \<notin> snd ` set attempts \<longrightarrow>
            r = Err (the (snd (last attempts))) \<and>
            lockOf internalLockId ` set [''cc:0''] \<inter> held (trace w') = {}"
    by (elim conjE)
  with h1 h2 have free: "lockOf internalLockId ` set [''cc:0''] \<inter> held (trace w') = {}"
    by simp
  have "fundPsbt stingyBackend [''cc:0''] Map.empty 5 \<lparr>trace = [], LndVerson = 17 / 100\<rparr> = (Ok [], fundedWorld)
   \<and> GetFeeFromPsbt plainLibrary [] = Inr (3 / 2000000)
   \<and> length (fundings (drop (length (trace fundedWorld)) (trace (snd (r, w'))))) = 401
   \<and> None \<notin> snd ` set (fundings (drop (length (trace fundedWorld)) (trace (snd (r, w')))))
   \<and> fst (r, w') = Err ''fee too low''
   \<and> lockOf internalLockId ` set [''cc:0''] \<inter> held (trace (snd (r, w'))) = {}"
    unfolding fst_conv snd_conv attempts_def [symmetric]
    by (intro conjI stingy_first plain_fee h1 h2 r free)
  then show ?thesis unfolding run [symmetric] .
qed

subsection \<open>BumpPeginFee on a node that can replace by fee\<close>

text \<open>
  C5, as amended. Suppose the connections succeed, the pending peg-in \<open>tx\<close> is found,
  \<open>CanRBF\<close> answers yes and the backend removes the transaction. Then \<open>BumpPeginFee\<close>
  makes two release passes over the former inputs of \<open>tx\<close>, the first under
  \<open>internalLockId\<close>, the second under \<open>myLockId\<close>, ignores their errors, and returns
  what \<open>SendCoinsWithUtxos\<close> returns for these inputs, the peg-in address and amount and
  the new fee rate, with subtract-fee-from-amount true exactly when \<open>tx\<close> has one
  output. Between the removal and that call there are only release requests; when the
  inputs are well formed and both passes end without error, they are the releases of
  every input under the first id followed by the releases of every input under the
  second.
\<close>

theorem BumpPeginFee_with_RBF:
  assumes "GetClient B w = (Ok (), w1)"
    and "getTransaction B (PeginTxId cfg) w1 = (Ok tx, w2)"
    and "lndConnection B w2 = (Ok (), w3)"
    and "CanRBF L B w3 = (Ok True, w4)"
    and "removeTransaction B (trace w4) (PeginTxId cfg) = Inr ''Successfully removed transaction''"
    and r6: "releaseOutputs B (PreviousOutpoints tx) internalLockId
           (logCall (RemoveTransaction (PeginTxId cfg)) None w4) = (r6, w6)"
    and r7: "releaseOutputs B (PreviousOutpoints tx) myLockId w6 = (r7, w7)"
    and "r6 \<noteq> Panic" and "r7 \<noteq> Panic"
  shows "BumpPeginFee L B cfg feeRate w =
           SendCoinsWithUtxos L B cfg (PreviousOutpoints tx) (PeginAddress cfg) (PeginAmount cfg)
             feeRate (length (OutputDetails tx) = 1) w7
       \<and> (\<exists>evs6 evs7. trace w7 = trace w4 @ Call (RemoveTransaction (PeginTxId cfg)) None # evs6 @ evs7 \<and>
             list_all isRelease evs6 \<and> list_all isRelease evs7 \<and>
             (list_all wellFormed (PreviousOutpoints tx) \<and> r6 = Ok () \<and> r7 = Ok () \<longrightarrow>
                evs6 = map (released internalLockId) (PreviousOutpoints tx) \<and>
                evs7 = map (released myLockId) (PreviousOutpoints tx)))"
proof -
  let ?w5 = "logCall (RemoveTransaction (PeginTxId cfg)) None w4"
  have run: "BumpPeginFee L B cfg feeRate w =
           SendCoinsWithUtxos L B cfg (PreviousOutpoints tx) (PeginAddress cfg) (PeginAmount cfg)
             feeRate (length (OutputDetails tx) = 1) w7"
    using assms by (cases r6; cases r7) (simp_all add: BumpPeginFee_def Let_def errOf_def)
  from releaseOutputs_events [OF r6] obtain evs6 where
    e6: "trace w6 = trace ?w5 @ evs6" "list_all isRelease evs6" by blast
  from releaseOutputs_events [OF r7] obtain evs7 where
    e7: "trace w7 = trace w6 @ evs7" "list_all isRelease evs7" by blast
  have t: "trace w7 = trace w4 @ Call (RemoveTransaction (PeginTxId cfg)) None # evs6 @ evs7"
    using e6 e7 by (simp add: logCall_def)
  have acc: "evs6 = map (released internalLockId) (PreviousOutpoints tx) \<and>
             evs7 = map (released myLockId) (PreviousOutpoints tx)"
    if "list_all wellFormed (PreviousOutpoints tx)" "r6 = Ok ()" "r7 = Ok ()"
    using releaseOutputs_trace [OF that(1), of B internalLockId ?w5 w6]
      releaseOutputs_trace [OF that(1), of B myLockId w6 w7] r6 r7 that e6 e7
    by simp
  from run t e6(2) e7(2) acc show ?thesis by blast
qed

lemmas bump_defs = BumpPeginFee_def SendCoinsWithUtxos_def SendCoinsWithUtxos_finalize_def
  fundPsbt_def run_defs fixture_defs string_evals rbfBackend_def lockedBackend_def signingBackend_def
  hexEncode_def hexDigit_def released_def

text \<open>
  C5 as stated fails when the backend refuses a release: each pass stops at the first
  refusal, so on the node that keeps \<open>cc:0\<close> locked the second input \<open>dd:1\<close> is never the
  subject of a release request under either id, and the funding is run all the same.
\<close>

theorem BumpPeginFee_with_RBF_counterexample:
  "BumpPeginFee plainLibrary lockedBackend peginConfig 25 freshWorld =
     (Ok \<lparr>RawHex = ''dead'', TxId = ''dead'', AmountSat = 1000\<rparr>,
      \<lparr>trace =
         [Call Dial None, Call GetTransactions None, Call Dial None, Call Dial None,
          Call GetInfo None, Call (RemoveTransaction ''aa'') None,
          Call (ReleaseOutput internalLockId \<lparr>TxidBytes = [], TxidStr = ''cc'', OutputIndex = 0\<rparr>)
            (Some ''output is locked by another id''),
          Call (ReleaseOutput myLockId \<lparr>TxidBytes = [], TxidStr = ''cc'', OutputIndex = 0\<rparr>)
            (Some ''output is locked by another id''),
          Call Dial None,
          Call (FundPsbt \<lparr>Template = Raw [\<lparr>TxidBytes = [], TxidStr = ''cc'', OutputIndex = 0\<rparr>,
                                         \<lparr>TxidBytes = [], TxidStr = ''dd'', OutputIndex = 1\<rparr>]
                                        [''pegin'' \<mapsto> 1000],
                          SatPerVbyte = 25, MinConfs = 1, SpendUnconfirmed = False,
                          ChangeType = CHANGE_ADDRESS_TYPE_P2TR\<rparr>) None,
          Call (FinalizePsbt []) None,
          Call (PublishTransaction [0xde, 0xad] ''Liquid Peg-in'') None],
       LndVerson = 9 / 50\<rparr>)
   \<and> PreviousOutpoints pendingTx = [''cc:0'', ''dd:1'']
   \<and> released internalLockId ''dd:1'' \<notin>
       set (trace (snd (BumpPeginFee plainLibrary lockedBackend peginConfig 25 freshWorld)))
   \<and> released myLockId ''dd:1'' \<notin>
       set (trace (snd (BumpPeginFee plainLibrary lockedBackend peginConfig 25 freshWorld)))"
  by (simp add: bump_defs)

theorem BumpPeginFee_with_RBF_witness:
  "BumpPeginFee plainLibrary rbfBackend peginConfig 25 freshWorld =
     SendCoinsWithUtxos plainLibrary rbfBackend peginConfig [''cc:0'', ''dd:1''] ''pegin'' 1000 25 False
       \<lparr>trace = [Call Dial None, Call GetTransactions None, Call Dial None, Call Dial None,
                 Call GetInfo None, Call (RemoveTransaction ''aa'') None,
                 released internalLockId ''cc:0'', released internalLockId ''dd:1'',
                 released myLockId ''cc:0'', released myLockId ''dd:1''],
        LndVerson = 9 / 50\<rparr>
   \<and> list_all wellFormed [''cc:0'', ''dd:1'']
   \<and> CanRBF plainLibrary rbfBackend
         \<lparr>trace = [Call Dial None, Call GetTransactions None, Call Dial None], LndVerson = 0\<rparr> =
       (Ok True, \<lparr>trace = [Call Dial None, Call GetTransactions None, Call Dial None, Call Dial None,
                           Call GetInfo None], LndVerson = 9 / 50\<rparr>)"
proof -
  let ?w1 = "\<lparr>trace = [Call Dial None], LndVerson = 0\<rparr>"
  let ?w2 = "\<lparr>trace = [Call Dial None, Call GetTransactions None], LndVerson = 0\<rparr>"
  let ?w3 = "\<lparr>trace = [Call Dial None, Call GetTransactions None, Call Dial None],
             LndVerson = 0\<rparr>"
  let ?w4 = "\<lparr>trace = [Call Dial None, Call GetTransactions None, Call Dial None, Call Dial None,
                Call GetInfo None], LndVerson = 9 / 50\<rparr>"
  let ?w6 = "\<lparr>trace = [Call Dial None, Call GetTransactions None, Call Dial None, Call Dial None,
                 Call GetInfo None, Call (RemoveTransaction ''aa'') None,
                 released internalLockId ''cc:0'', released internalLockId ''dd:1''],
        LndVerson = 9 / 50\<rparr>"
  let ?w7 = "\<lparr>trace = [Call Dial None, Call GetTransactions None, Call Dial None, Call Dial None,
                 Call GetInfo None, Call (RemoveTransaction ''aa'') None,
                 released internalLockId ''cc:0'', released internalLockId ''dd:1'',
                 released myLockId ''cc:0'', released myLockId ''dd:1''],
        LndVerson = 9 / 50\<rparr>"
  have h: "GetClient rbfBackend freshWorld = (Ok (), ?w1)"
    "getTransaction rbfBackend (PeginTxId peginConfig) ?w1 = (Ok pendingTx, ?w2)"
    "lndConnection rbfBackend ?w2 = (Ok (), ?w3)"
    "CanRBF plainLibrary rbfBackend ?w3 = (Ok True, ?w4)"
    "removeTransaction rbfBackend (trace ?w4) (PeginTxId peginConfig)
       = Inr ''Successfully removed transaction''"
    "releaseOutputs rbfBackend (PreviousOutpoints pendingTx) internalLockId
       (logCall (RemoveTransaction (PeginTxId peginConfig)) None ?w4) = (Ok (), ?w6)"
    "releaseOutputs rbfBackend (PreviousOutpoints pendingTx) myLockId ?w6 = (Ok (), ?w7)"
    "Ok () \<noteq> (Panic :: unit result)" "Ok () \<noteq> (Panic :: unit result)"
    by (simp_all add: bump_defs)
  have wf: "list_all wellFormed [''cc:0'', ''dd:1'']" by (simp add: string_evals)
  from BumpPeginFee_with_RBF [OF h, of 25, THEN conjunct1]
  have "BumpPeginFee plainLibrary rbfBackend peginConfig 25 freshWorld =
     SendCoinsWithUtxos plainLibrary rbfBackend peginConfig [''cc:0'', ''dd:1''] ''pegin'' 1000 25 False ?w7"
    by (simp add: pendingTx_def peginConfig_def)
  with wf h(4) show ?thesis by simp
qed

subsection \<open>The timer\<close>

lemma liquidBackup_facts:
  "\<exists>evs. actions (liquidBackup S f s) = actions s @ evs \<and> list_all (\<lambda>a. \<not> peginAction a) evs \<and>
     PeginTxId (config (liquidBackup S f s)) = PeginTxId (config s) \<and>
     PeginClaimScript (config (liquidBackup S f s)) = PeginClaimScript (config s)"
  by (auto simp: liquidBackup_def act_def Let_def peginAction_def split: sum.splits option.splits)

lemma tick_char:
  "\<exists>pre post. actions (timerTick S s) = actions s @ pre @ post \<and>
     list_all (\<lambda>a. \<not> peginAction a) pre \<and>
     (PeginTxId (config s) = [] \<longrightarrow> post = [] \<and> PeginTxId (config (timerTick S s)) = []) \<and>
     (PeginTxId (config s) \<noteq> [] \<longrightarrow>
        (\<exists>confs. \<not> 102 \<le>s confs \<and> post = [LnGetTxConfirmations (PeginTxId (config s)) confs] \<and>
            PeginTxId (config (timerTick S s)) = PeginTxId (config s))
      \<or> (\<exists>confs e msg c. 102 \<le>s confs \<and> PeginTxId (config (timerTick S s)) = [] \<and>
            post = [LnGetTxConfirmations (PeginTxId (config s)) confs,
                    GetRawTransaction (PeginTxId (config s)) (Some e),
                    TelegramSendMessage msg, ConfigSave c])
      \<or> (\<exists>confs raw prf script ce msg c. 102 \<le>s confs \<and>
            PeginTxId (config (timerTick S s)) = [] \<and>
            post = [LnGetTxConfirmations (PeginTxId (config s)) confs,
                    GetRawTransaction (PeginTxId (config s)) None,
                    GetTxOutProof (PeginTxId (config s)),
                    ClaimPegin raw prf script ce, TelegramSendMessage msg, ConfigSave c]))"
proof -
  let ?s0 = "act TelegramStart s"
  let ?s1 = "liquidBackup S False ?s0"
  from liquidBackup_facts [of S False ?s0] obtain evs where
    l: "actions ?s1 = actions ?s0 @ evs" "list_all (\<lambda>a. \<not> peginAction a) evs"
       "PeginTxId (config ?s1) = PeginTxId (config ?s0)"
    by blast
  have a0: "actions ?s1 = actions s @ (TelegramStart # evs)" "PeginTxId (config ?s1) = PeginTxId (config s)"
    using l by (simp_all add: act_def)
  have p: "list_all (\<lambda>a. \<not> peginAction a) (TelegramStart # evs)"
    using l(2) by (simp add: peginAction_def)
  show ?thesis
    apply (rule exI [of _ "TelegramStart # evs"])
    apply (simp only: timerTick_def Let_def)
    using a0 p
    apply (auto simp: act_def errOf_def split: sum.splits)
    done
qed

lemma claimAttempts_append: "claimAttempts (xs @ ys) = claimAttempts xs + claimAttempts ys"
  by (simp add: claimAttempts_def)

lemma quiet_actions:
  assumes "list_all (\<lambda>a. \<not> peginAction a) xs"
  shows "claimAttempts xs = 0" and "GetRawTransaction t e \<notin> set xs"
    and "LnGetTxConfirmations t c \<notin> set xs"
  using assms
  by (auto simp: claimAttempts_def list_all_iff peginAction_def isClaim_def filter_empty_conv
      split: action.splits)

lemma tick_facts:
  "\<exists>new. actions (timerTick S s) = actions s @ new \<and>
     (PeginTxId (config s) = [] \<longrightarrow>
        list_all (\<lambda>a. \<not> peginAction a) new \<and> PeginTxId (config (timerTick S s)) = []) \<and>
     (PeginTxId (config s) \<noteq> [] \<longrightarrow>
        (PeginTxId (config (timerTick S s)) = PeginTxId (config s) \<and> claimAttempts new = 0 \<and>
         GetRawTransaction (PeginTxId (config s)) None \<notin> set new \<and>
         (\<forall>c. LnGetTxConfirmations (PeginTxId (config s)) c \<in> set new \<longrightarrow> \<not> 102 \<le>s c))
      \<or> (PeginTxId (config (timerTick S s)) = [] \<and>
         (\<exists>confs. 102 \<le>s confs \<and> LnGetTxConfirmations (PeginTxId (config s)) confs \<in> set new) \<and>
         claimAttempts new \<le> 1 \<and>
         (claimAttempts new = 1) = (GetRawTransaction (PeginTxId (config s)) None \<in> set new)))"
proof -
  from tick_char [of S s] obtain pre post where
    a: "actions (timerTick S s) = actions s @ pre @ post"
    and q: "list_all (\<lambda>a. \<not> peginAction a) pre"
    and e: "PeginTxId (config s) = [] \<longrightarrow> post = [] \<and> PeginTxId (config (timerTick S s)) = []"
    and n: "PeginTxId (config s) \<noteq> [] \<longrightarrow>
        (\<exists>confs. \<not> 102 \<le>s confs \<and> post = [LnGetTxConfirmations (PeginTxId (config s)) confs] \<and>
            PeginTxId (config (timerTick S s)) = PeginTxId (config s))
      \<or> (\<exists>confs e msg c. 102 \<le>s confs \<and> PeginTxId (config (timerTick S s)) = [] \<and>
            post = [LnGetTxConfirmations (PeginTxId (config s)) confs,
                    GetRawTransaction (PeginTxId (config s)) (Some e),
                    TelegramSendMessage msg, ConfigSave c])
      \<or> (\<exists>confs raw prf script ce msg c. 102 \<le>s confs \<and>
            PeginTxId (config (timerTick S s)) = [] \<and>
            post = [LnGetTxConfirmations (PeginTxId (config s)) confs,
                    GetRawTransaction (PeginTxId (config s)) None,
                    GetTxOutProof (PeginTxId (config s)),
                    ClaimPegin raw prf script ce, TelegramSendMessage msg, ConfigSave c])"
    by blast
  note qa = quiet_actions [OF q]
  have 1: "PeginTxId (config s) = [] \<longrightarrow>
        list_all (\<lambda>a. \<not> peginAction a) (pre @ post) \<and> PeginTxId (config (timerTick S s)) = []"
    using e q by auto
  have 2: "PeginTxId (config s) \<noteq> [] \<longrightarrow>
        (PeginTxId (config (timerTick S s)) = PeginTxId (config s) \<and> claimAttempts (pre @ post) = 0 \<and>
         GetRawTransaction (PeginTxId (config s)) None \<notin> set (pre @ post) \<and>
         (\<forall>c. LnGetTxConfirmations (PeginTxId (config s)) c \<in> set (pre @ post) \<longrightarrow> \<not> 102 \<le>s c))
      \<or> (PeginTxId (config (timerTick S s)) = [] \<and>
         (\<exists>confs. 102 \<le>s confs \<and> LnGetTxConfirmations (PeginTxId (config s)) confs \<in> set (pre @ post)) \<and>
         claimAttempts (pre @ post) \<le> 1 \<and>
         (claimAttempts (pre @ post) = 1) = (GetRawTransaction (PeginTxId (config s)) None \<in> set (pre @ post)))"
  proof
    assume "PeginTxId (config s) \<noteq> []"
    with n consider
      (low) confs where "\<not> 102 \<le>s confs" "post = [LnGetTxConfirmations (PeginTxId (config s)) confs]"
            "PeginTxId (config (timerTick S s)) = PeginTxId (config s)"
    | (noraw) confs e msg c where "102 \<le>s confs" "PeginTxId (config (timerTick S s)) = []"
            "post = [LnGetTxConfirmations (PeginTxId (config s)) confs,
                    GetRawTransaction (PeginTxId (config s)) (Some e),
                    TelegramSendMessage msg, ConfigSave c]"
    | (claim) confs raw pr script ce msg c where "102 \<le>s confs"
            "PeginTxId (config (timerTick S s)) = []"
            "post = [LnGetTxConfirmations (PeginTxId (config s)) confs,
                    GetRawTransaction (PeginTxId (config s)) None,
                    GetTxOutProof (PeginTxId (config s)),
                    ClaimPegin raw pr script ce, TelegramSendMessage msg, ConfigSave c]"
      by blast
    then show "(PeginTxId (config (timerTick S s)) = PeginTxId (config s) \<and> claimAttempts (pre @ post) = 0 \<and>
         GetRawTransaction (PeginTxId (config s)) None \<notin> set (pre @ post) \<and>
         (\<forall>c. LnGetTxConfirmations (PeginTxId (config s)) c \<in> set (pre @ post) \<longrightarrow> \<not> 102 \<le>s c))
      \<or> (PeginTxId (config (timerTick S s)) = [] \<and>
         (\<exists>confs. 102 \<le>s confs \<and> LnGetTxConfirmations (PeginTxId (config s)) confs \<in> set (pre @ post)) \<and>
         claimAttempts (pre @ post) \<le> 1 \<and>
         (claimAttempts (pre @ post) = 1) = (GetRawTransaction (PeginTxId (config s)) None \<in> set (pre @ post)))"
    proof cases
      case low
      with qa show ?thesis
        by (simp add: claimAttempts_append) (simp add: claimAttempts_def isClaim_def)
    next
      case noraw
      with qa show ?thesis
        by (auto simp: claimAttempts_append) (simp_all add: claimAttempts_def isClaim_def)
    next
      case claim
      with qa show ?thesis
        by (auto simp: claimAttempts_append) (simp_all add: claimAttempts_def isClaim_def)
    qed
  qed
  from a 1 2 show ?thesis by (intro exI [of _ "pre @ post"]) simp
qed


lemma tracked_tick:
  "\<exists>new. actions (timerTick S s) = actions s @ new \<and>
         tracked (PeginTxId (config s)) (PeginTxId (config (timerTick S s))) new"
  using tick_facts [of S s] unfolding tracked_def by blast

lemma tracked_trans:
  assumes "tracked a b xs" and "tracked b c ys"
  shows "tracked a c (xs @ ys)"
proof (cases "a = []")
  case True
  with assms show ?thesis by (auto simp: tracked_def)
next
  case False
  show ?thesis
  proof (cases "b = []")
    case True
    with assms(2) have q: "list_all (\<lambda>a. \<not> peginAction a) ys" "c = []"
      by (auto simp: tracked_def)
    note qa = quiet_actions [OF q(1)]
    from assms(1) False True q(2) qa show ?thesis
      by (auto simp: tracked_def claimAttempts_append)
  next
    case nb: False
    with assms(1) False have x: "b = a" "claimAttempts xs = 0" "GetRawTransaction a None \<notin> set xs"
      "\<forall>c. LnGetTxConfirmations a c \<in> set xs \<longrightarrow> \<not> 102 \<le>s c"
      by (auto simp: tracked_def)
    from assms(2) False x show ?thesis
      by (auto simp: tracked_def claimAttempts_append)
  qed
qed

lemma tracked_startTimer:
  "\<exists>new. actions (startTimer S n s) = actions s @ new \<and>
         tracked (PeginTxId (config s)) (PeginTxId (config (startTimer S n s))) new"
proof (induction n arbitrary: s)
  case 0
  show ?case by (auto simp: tracked_def claimAttempts_def)
next
  case (Suc n)
  from tracked_tick [of S s] obtain new1 where
    1: "actions (timerTick S s) = actions s @ new1"
       "tracked (PeginTxId (config s)) (PeginTxId (config (timerTick S s))) new1" by blast
  from Suc [of "timerTick S s"] obtain new2 where
    2: "actions (startTimer S n (timerTick S s)) = actions (timerTick S s) @ new2"
       "tracked (PeginTxId (config (timerTick S s)))
          (PeginTxId (config (startTimer S n (timerTick S s)))) new2" by blast
  from 1(1) 2(1) tracked_trans [OF 1(2) 2(2)] show ?case
    by (intro exI [of _ "new1 @ new2"]) simp
qed

text \<open>
  C8, as amended. Let an id be tracked when the timer starts, and consider the actions
  of any number of rounds. The id is then either still tracked or cleared; it is cleared
  exactly when one of the rounds has seen a confirmation count of 102 or more for it,
  whatever came of fetching the raw transaction and of the claim. There is at most one
  claim attempt over all rounds; there is one exactly when the raw transaction has been
  fetched successfully, and after an attempt the id is cleared.
\<close>

theorem startTimer_single_claim_attempt:
  assumes "new = drop (length (actions s)) (actions (startTimer S n s))"
    and "txid = PeginTxId (config s)"
    and "txid' = PeginTxId (config (startTimer S n s))"
    and "txid \<noteq> []"
  shows "(txid' = txid \<or> txid' = [])
       \<and> (txid' = []) = (\<exists>confs. 102 \<le>s confs \<and> LnGetTxConfirmations txid confs \<in> set new)
       \<and> claimAttempts new \<le> 1
       \<and> (claimAttempts new = 1) = (GetRawTransaction txid None \<in> set new)
       \<and> (claimAttempts new = 1 \<longrightarrow> txid' = [])"
proof -
  from tracked_startTimer [of S n s] obtain new' where
    "actions (startTimer S n s) = actions s @ new'"
    "tracked (PeginTxId (config s)) (PeginTxId (config (startTimer S n s))) new'" by blast
  with assms have "tracked txid txid' new" by simp
  with assms(4) show ?thesis
    by (auto simp: tracked_def)
qed

lemmas timer_defs = timerTick_def liquidBackup_def act_def errOf_def Let_def deepServices_def
  offlineServices_def pendingApp_def peginConfig_def claimAttempts_def isClaim_def

theorem startTimer_single_claim_attempt_witness:
  "PeginTxId (config pendingApp) = ''aa''
   \<and> PeginTxId (config (startTimer deepServices (Suc (Suc 0)) pendingApp)) = []
   \<and> drop (length (actions pendingApp)) (actions (startTimer deepServices (Suc (Suc 0)) pendingApp)) =
       [TelegramStart, LnGetTxConfirmations ''aa'' 102, GetRawTransaction ''aa'' None,
        GetTxOutProof ''aa'', ClaimPegin ''0200'' ''0a0b'' ''0014'' None,
        TelegramSendMessage ''Peg-in success!'', ConfigSave (peginConfig\<lparr>PeginTxId := []\<rparr>),
        TelegramStart]
   \<and> claimAttempts (drop (length (actions pendingApp))
         (actions (startTimer deepServices (Suc (Suc 0)) pendingApp))) = 1
   \<and> (\<exists>confs. 102 \<le>s confs \<and> LnGetTxConfirmations ''aa'' confs \<in>
         set (drop (length (actions pendingApp))
               (actions (startTimer deepServices (Suc (Suc 0)) pendingApp))))"
proof -
  have run: "startTimer deepServices (Suc (Suc 0)) pendingApp =
     \<lparr>config = peginConfig\<lparr>PeginTxId := []\<rparr>, chatId = 0,
      actions = [TelegramStart, LnGetTxConfirmations ''aa'' 102, GetRawTransaction ''aa'' None,
        GetTxOutProof ''aa'', ClaimPegin ''0200'' ''0a0b'' ''0014'' None,
        TelegramSendMessage ''Peg-in success!'', ConfigSave (peginConfig\<lparr>PeginTxId := []\<rparr>),
        TelegramStart]\<rparr>"
    by (simp add: timer_defs)
  have id: "PeginTxId (config pendingApp) = ''aa''" "''aa'' \<noteq> []"
    by (simp_all add: pendingApp_def peginConfig_def)
  from startTimer_single_claim_attempt [OF refl id(1) [symmetric] refl id(2),
      of deepServices "Suc (Suc 0)"]
  have "(PeginTxId (config (startTimer deepServices (Suc (Suc 0)) pendingApp)) = []) =
        (\<exists>confs. 102 \<le>s confs \<and> LnGetTxConfirmations ''aa'' confs \<in>
         set (drop (length (actions pendingApp))
               (actions (startTimer deepServices (Suc (Suc 0)) pendingApp))))"
    by (elim conjE)
  moreover have "PeginTxId (config (startTimer deepServices (Suc (Suc 0)) pendingApp)) = []"
    unfolding run by simp
  ultimately have ex: "\<exists>confs. 102 \<le>s confs \<and> LnGetTxConfirmations ''aa'' confs \<in>
         set (drop (length (actions pendingApp))
               (actions (startTimer deepServices (Suc (Suc 0)) pendingApp)))"
    by simp
  have rest: "PeginTxId (config (startTimer deepServices (Suc (Suc 0)) pendingApp)) = []
   \<and> drop (length (actions pendingApp)) (actions (startTimer deepServices (Suc (Suc 0)) pendingApp)) =
       [TelegramStart, LnGetTxConfirmations ''aa'' 102, GetRawTransaction ''aa'' None,
        GetTxOutProof ''aa'', ClaimPegin ''0200'' ''0a0b'' ''0014'' None,
        TelegramSendMessage ''Peg-in success!'', ConfigSave (peginConfig\<lparr>PeginTxId := []\<rparr>),
        TelegramStart]
   \<and> claimAttempts (drop (length (actions pendingApp))
         (actions (startTimer deepServices (Suc (Suc 0)) pendingApp))) = 1"
    unfolding run by (simp add: pendingApp_def claimAttempts_def isClaim_def)
  from id(1) rest ex show ?thesis by blast
qed

text \<open>
  C8 as stated fails when the raw transaction cannot be fetched: the round that sees 102
  confirmations clears the id although no claim attempt has been made.
\<close>

theorem timerTick_clears_without_claim_counterexample:
  "PeginTxId (config pendingApp) = ''aa''
   \<and> timerTick offlineServices pendingApp =
     \<lparr>config = peginConfig\<lparr>PeginTxId := []\<rparr>, chatId = 0,
      actions = [TelegramStart, LnGetTxConfirmations ''aa'' 102,
                 GetRawTransaction ''aa'' (Some ''connection refused''),
                 TelegramSendMessage ''Peg-In getrawtx FAILED! See log for details.'',
                 ConfigSave (peginConfig\<lparr>PeginTxId := []\<rparr>)]\<rparr>
   \<and> PeginTxId (config (timerTick offlineServices pendingApp)) = []
   \<and> claimAttempts (actions (timerTick offlineServices pendingApp)) = 0"
  by (simp add: timer_defs)

end
